theory Spec2Isabelle
  imports Complex_Main "HOL-Library.Char_ord" "HOL-Library.List_Lexorder"
begin

section \<open>Salt-bridge detection (contact_calc/salt_bridges.py)\<close>

text \<open>
  Atom labels are opaque strings. A VMD selection query is a string, or None when the
  caller gave none. The molecule identifier and the frame index are Python ints.
\<close>

type_synonym atom_label = string
type_synonym sele = "string option"

text \<open>
  The helpers \<^verbatim>\<open>get_anion_atoms\<close>, \<^verbatim>\<open>get_cation_atoms\<close>, \<^verbatim>\<open>get_selection_atoms\<close> and
  \<^verbatim>\<open>compute_distance\<close> come from \<^verbatim>\<open>contact_utils\<close>, which queries the molecular toolkit.
  They are parameters of the model: a provider is any four functions of the arguments
  the source passes to them. Distances are floats that the detector only compares with
  the cutoff; they are modelled as reals.
\<close>

record provider =
  get_anion_atoms :: "int \<Rightarrow> int \<Rightarrow> sele \<Rightarrow> sele \<Rightarrow> atom_label list"
  get_cation_atoms :: "int \<Rightarrow> int \<Rightarrow> sele \<Rightarrow> sele \<Rightarrow> atom_label list"
  get_selection_atoms :: "int \<Rightarrow> int \<Rightarrow> string \<Rightarrow> atom_label list"
  compute_distance :: "int \<Rightarrow> int \<Rightarrow> atom_label \<Rightarrow> atom_label \<Rightarrow> real"

text \<open>
  \<^verbatim>\<open>filter_dual_selection_salt_bridges\<close>: True means that the pair is filtered out.
\<close>

definition filter_dual_selection_salt_bridges ::
  "atom_label list \<Rightarrow> atom_label list \<Rightarrow> atom_label \<Rightarrow> atom_label \<Rightarrow> bool" where
  "filter_dual_selection_salt_bridges sele1_atoms sele2_atoms anion_atom cation_atom =
     (let dual_sel1 = (anion_atom \<in> set sele1_atoms \<and> cation_atom \<in> set sele2_atoms);
          dual_sel2 = (anion_atom \<in> set sele2_atoms \<and> cation_atom \<in> set sele1_atoms)
      in if dual_sel1 \<or> dual_sel2 then False else True)"

definition prep_salt_bridge_computation ::
  "provider \<Rightarrow> int \<Rightarrow> int \<Rightarrow> sele \<Rightarrow> sele \<Rightarrow> atom_label list \<times> atom_label list" where
  "prep_salt_bridge_computation P traj_frag_molid frame_idx sele_id sele_id2 =
     (let anion_list = get_anion_atoms P traj_frag_molid frame_idx sele_id sele_id2;
          cation_list = get_cation_atoms P traj_frag_molid frame_idx sele_id sele_id2
      in (anion_list, cation_list))"

text \<open>
  A reported salt bridge is the Python list \<^verbatim>\<open>[frame_idx, "sb", anion_atom, cation_atom]\<close>.
  The state of the double loop is the list \<^verbatim>\<open>salt_bridges\<close> built by \<^verbatim>\<open>append\<close>, together
  with the sequence of calls made to \<^verbatim>\<open>compute_distance\<close>, which makes the order
  "filter first, geometry second" of the loop body observable.
\<close>

type_synonym sb_record = "int \<times> string \<times> atom_label \<times> atom_label"

record sb_state =
  salt_bridges :: "sb_record list"
  distance_queries :: "(atom_label \<times> atom_label) list"

text \<open>
  \<^verbatim>\<open>sele1_atoms\<close> and \<^verbatim>\<open>sele2_atoms\<close> are bound only when both queries are given; the
  loop body reads them under the same test.
\<close>

definition selection_atoms ::
  "provider \<Rightarrow> int \<Rightarrow> int \<Rightarrow> sele \<Rightarrow> sele \<Rightarrow> (atom_label list \<times> atom_label list) option" where
  "selection_atoms P traj_frag_molid frame_idx sele_id sele_id2 =
     (if sele_id \<noteq> None \<and> sele_id2 \<noteq> None
      then Some (get_selection_atoms P traj_frag_molid frame_idx (the sele_id),
                 get_selection_atoms P traj_frag_molid frame_idx (the sele_id2))
      else None)"

definition pair_step ::
  "provider \<Rightarrow> int \<Rightarrow> int \<Rightarrow> (atom_label list \<times> atom_label list) option \<Rightarrow> real \<Rightarrow>
   atom_label \<Rightarrow> sb_state \<Rightarrow> atom_label \<Rightarrow> sb_state" where
  "pair_step P traj_frag_molid frame_idx sele_atoms cutoff anion_atom st cation_atom =
     (if (case sele_atoms of
            Some (sele1_atoms, sele2_atoms) \<Rightarrow>
              filter_dual_selection_salt_bridges sele1_atoms sele2_atoms anion_atom cation_atom = True
          | None \<Rightarrow> False)
      then st
      else
        let dist = compute_distance P traj_frag_molid frame_idx anion_atom cation_atom;
            st = st\<lparr>distance_queries := distance_queries st @ [(anion_atom, cation_atom)]\<rparr>
        in if dist < cutoff
           then st\<lparr>salt_bridges := salt_bridges st @ [(frame_idx, ''sb'', anion_atom, cation_atom)]\<rparr>
           else st)"

definition salt_bridge_loop ::
  "provider \<Rightarrow> int \<Rightarrow> int \<Rightarrow> sele \<Rightarrow> sele \<Rightarrow> real \<Rightarrow> sb_state" where
  "salt_bridge_loop P traj_frag_molid frame_idx sele_id sele_id2 cutoff =
     (let (anion_list, cation_list) =
            prep_salt_bridge_computation P traj_frag_molid frame_idx sele_id sele_id2;
          sele_atoms = selection_atoms P traj_frag_molid frame_idx sele_id sele_id2
      in foldl (\<lambda>st anion_atom.
                  foldl (pair_step P traj_frag_molid frame_idx sele_atoms cutoff anion_atom)
                        st cation_list)
               \<lparr>salt_bridges = [], distance_queries = []\<rparr> anion_list)"

definition compute_salt_bridges ::
  "provider \<Rightarrow> int \<Rightarrow> int \<Rightarrow> sele \<Rightarrow> sele \<Rightarrow> real \<Rightarrow> sb_record list" where
  "compute_salt_bridges P traj_frag_molid frame_idx sele_id sele_id2 cutoff =
     salt_bridges (salt_bridge_loop P traj_frag_molid frame_idx sele_id sele_id2 cutoff)"

text \<open>The default value of the parameter \<^verbatim>\<open>SALT_BRIDGE_CUTOFF_DISTANCE\<close>.\<close>

definition SALT_BRIDGE_CUTOFF_DISTANCE :: real where
  "SALT_BRIDGE_CUTOFF_DISTANCE = 4.0"

text \<open>The calls to \<^verbatim>\<open>compute_distance\<close> made by one run of \<^verbatim>\<open>compute_salt_bridges\<close>.\<close>

definition distance_calls ::
  "provider \<Rightarrow> int \<Rightarrow> int \<Rightarrow> sele \<Rightarrow> sele \<Rightarrow> real \<Rightarrow> (atom_label \<times> atom_label) list" where
  "distance_calls P traj_frag_molid frame_idx sele_id sele_id2 cutoff =
     distance_queries (salt_bridge_loop P traj_frag_molid frame_idx sele_id sele_id2 cutoff)"

text \<open>
  A pair reaches the geometry check when no dual selection is active or the filter
  does not reject it.
\<close>

definition reaches_geometry ::
  "(atom_label list \<times> atom_label list) option \<Rightarrow> atom_label \<Rightarrow> atom_label \<Rightarrow> bool" where
  "reaches_geometry sele_atoms anion_atom cation_atom =
     (case sele_atoms of
        Some (sele1_atoms, sele2_atoms) \<Rightarrow>
          \<not> filter_dual_selection_salt_bridges sele1_atoms sele2_atoms anion_atom cation_atom
      | None \<Rightarrow> True)"

text \<open>
  A provider for concrete runs: two chains, two acidic and two basic atoms. Under the
  distance-based selection query "within 5 of resname LIG" the anion candidates depend
  on the frame, as the atoms of such a query do: the ASP atom is selected in frame 0
  only.
\<close>

definition example_provider :: provider where
  "example_provider =
     \<lparr>get_anion_atoms = (\<lambda>molid frame s1 s2.
        if s1 = Some ''within 5 of resname LIG'' \<and> frame \<noteq> 0 then [''B:GLU:7:OE1'']
        else [''A:ASP:1:OD1'', ''B:GLU:7:OE1'']),
      get_cation_atoms = (\<lambda>molid frame s1 s2. [''B:LYS:2:NZ'', ''A:ARG:9:NH1'']),
      get_selection_atoms = (\<lambda>molid frame q.
        if q = ''chain A'' then [''A:ASP:1:OD1'', ''A:ARG:9:NH1'']
        else if q = ''chain B'' then [''B:GLU:7:OE1'', ''B:LYS:2:NZ'']
        else []),
      compute_distance = (\<lambda>molid frame a c.
        if a = ''A:ASP:1:OD1'' \<and> c = ''B:LYS:2:NZ'' then 4 - 1 / 10
        else if a = ''A:ASP:1:OD1'' \<and> c = ''A:ARG:9:NH1'' then 2
        else if a = ''B:GLU:7:OE1'' \<and> c = ''A:ARG:9:NH1'' then 4
        else 6)\<rparr>"

text \<open>The same provider with another distance for the pair inside chain A.\<close>

definition example_provider2 :: provider where
  "example_provider2 =
     example_provider\<lparr>compute_distance := (\<lambda>molid frame a c.
        if a = ''A:ASP:1:OD1'' \<and> c = ''A:ARG:9:NH1'' then 5
        else compute_distance example_provider molid frame a c)\<rparr>"

section \<open>Interaction types (get_contact_flare.py)\<close>

text \<open>
  Python's \<^verbatim>\<open>sub in s\<close> on strings: \<^verbatim>\<open>sub\<close> occurs in \<^verbatim>\<open>s\<close> at some position.
\<close>

fun str_in :: "string \<Rightarrow> string \<Rightarrow> bool" where
  "str_in sub [] = (sub = [])"
| "str_in sub (c # cs) = (take (length sub) (c # cs) = sub \<or> str_in sub cs)"

text \<open>
  Python's \<^verbatim>\<open>s.split(sep)\<close> for a separator of one character: every occurrence of
  the separator ends a token, empty tokens are kept, and the empty string gives one
  empty token.
\<close>

fun split_str :: "char \<Rightarrow> string \<Rightarrow> string list" where
  "split_str sep [] = [[]]"
| "split_str sep (c # cs) =
     (if c = sep then [] # split_str sep cs
      else (c # hd (split_str sep cs)) # tl (split_str sep cs))"

text \<open>Python's \<^verbatim>\<open>sep.join(xs)\<close>.\<close>

fun join :: "string \<Rightarrow> string list \<Rightarrow> string" where
  "join sep [] = []"
| "join sep [x] = x"
| "join sep (x # y # ys) = x @ sep @ join sep (y # ys)"

text \<open>\<^verbatim>\<open>parse_itypes\<close> returns a list on one path and a set on the other.\<close>

datatype itypes = Itype_list "string list" | Itype_set "string set"

definition parse_itypes :: "string \<Rightarrow> itypes" where
  "parse_itypes itype_argument =
     (if str_in ''all'' itype_argument
      then Itype_list [''sb'', ''pc'', ''ps'', ''ts'', ''vdw'', ''hb'', ''lhb'', ''hbbb'', ''hbsb'',
                       ''hbss'', ''wb'', ''wb2'', ''hls'', ''hlb'', ''lwb'', ''lwb2'']
      else Itype_set (set (split_str CHR '','' itype_argument)))"

section \<open>The flare graph (create_graph in get_contact_flare.py)\<close>

text \<open>
  \<^verbatim>\<open>create_graph\<close> stands in the file as a commented-out block, and \<^verbatim>\<open>main\<close> calls
  \<^verbatim>\<open>create_flare\<close> in its place. The model of this section follows the text of the block
  statement by statement; the builder that runs is modelled in the next section.

  An atom is a tuple of strings (chain, residue name, residue number, atom name). A
  contact is a tuple of a frame number, an interaction type and two to four atoms; the
  third and fourth atoms (waters) are never read. The frame number is passed through
  \<^verbatim>\<open>int(...)\<close>; the model takes it as an integer already, on which \<^verbatim>\<open>int\<close> is the
  identity.
\<close>

type_synonym atom = "string list"
type_synonym contact = "int \<times> string \<times> atom \<times> atom \<times> atom list"
type_synonym stripped_contact = "int \<times> string \<times> atom \<times> atom"

text \<open>
  \<^verbatim>\<open>resi_labels\<close> is None or a dict from residue identifiers to dicts with the keys
  "label", "treepath" and "color". The dict is an association list (its order is the
  order of \<^verbatim>\<open>values()\<close>), read with \<^const>\<open>map_of\<close>.
\<close>

record resi_label =
  label :: string
  treepath :: string
  color :: string

type_synonym resi_labels = "(string \<times> resi_label) list"

record edge =
  name1 :: string
  name2 :: string
  frames :: "int list"

record tree =
  treeLabel :: string
  treePaths :: "string list"

record track_property =
  nodeName :: string
  nodeColor :: string
  nodeSize :: real

record track =
  trackLabel :: string
  trackProperties :: "track_property list"

record flare =
  edges :: "edge list"
  trees :: "tree list option"
  tracks :: "track list option"

text \<open>
  The loop's state. Each edge dict is shared by \<^verbatim>\<open>resi_edges\<close> and \<^verbatim>\<open>ret["edges"]\<close>:
  the list \<open>ret_edges\<close> is the store, in creation order, and \<open>resi_edges\<close> maps a
  contact key to the position of its edge there. \<open>printed\<close> collects the contacts of
  the "Omitting contact" messages.
\<close>

record graph_state =
  resi_edges :: "string \<rightharpoonup> nat"
  ret_edges :: "edge list"
  printed :: "stripped_contact list"

text \<open>
  Lines 184 to 190: create the edge of \<^verbatim>\<open>contact_key\<close> if there is none, then append
  the frame to the edge found under \<^verbatim>\<open>contact_key\<close>.
\<close>

definition append_frame ::
  "string \<Rightarrow> string \<Rightarrow> string \<Rightarrow> int \<Rightarrow> graph_state \<Rightarrow> graph_state" where
  "append_frame a1_label a2_label contact_key frame st =
     (let st = (if resi_edges st contact_key = None
                then st\<lparr>resi_edges := (resi_edges st)(contact_key \<mapsto> length (ret_edges st)),
                        ret_edges := ret_edges st @
                          [\<lparr>name1 = a1_label, name2 = a2_label, frames = []\<rparr>]\<rparr>
                else st)
      in case resi_edges st contact_key of
           Some i \<Rightarrow>
             st\<lparr>ret_edges := (ret_edges st)
                   [i := (ret_edges st ! i)\<lparr>frames := frames (ret_edges st ! i) @ [frame]\<rparr>]\<rparr>
         | None \<Rightarrow> st)"

text \<open>
  The body of the loop over the contacts (lines 164 to 190). \<^verbatim>\<open>if resi_labels:\<close> is
  Python truthiness: None and the empty dict both take the else branch.
\<close>

definition add_contact :: "resi_labels option \<Rightarrow> graph_state \<Rightarrow> stripped_contact \<Rightarrow> graph_state" where
  "add_contact resi_labels st contact =
     (case contact of (frame, itype, atom1, atom2) \<Rightarrow>
        let a1_key = join '':'' (take 3 atom1);
            a2_key = join '':'' (take 3 atom2)
        in if a1_key = a2_key then st
           else
             let (a1_key, a2_key) =
                   (if a1_key > a2_key then (a2_key, a1_key) else (a1_key, a2_key));
                 contact_key = a1_key @ a2_key
             in case resi_labels of
                  Some (l # ls) \<Rightarrow>
                    (case (map_of (l # ls) a1_key, map_of (l # ls) a2_key) of
                       (Some r1, Some r2) \<Rightarrow>
                         append_frame (label r1) (label r2) contact_key frame st
                     | _ \<Rightarrow> st\<lparr>printed := printed st @ [contact]\<rparr>)
                | _ \<Rightarrow> append_frame a1_key a2_key contact_key frame st)"

text \<open>Line 160: one element of the comprehension that strips the atoms.\<close>

definition strip_atoms :: "contact \<Rightarrow> stripped_contact" where
  "strip_atoms c = (case c of (c0, c1, c2, c3, cs) \<Rightarrow> (c0, c1, take 3 c2, take 3 c3))"

definition create_graph :: "contact list \<Rightarrow> resi_labels option \<Rightarrow> flare" where
  "create_graph contacts resi_labels =
     (let contacts = map strip_atoms contacts;
          st = foldl (add_contact resi_labels)
                 \<lparr>resi_edges = Map.empty, ret_edges = [], printed = []\<rparr> contacts;
          es = map (\<lambda>e. e\<lparr>frames := sorted_list_of_set (set (frames e))\<rparr>) (ret_edges st)
      in case resi_labels of
           None \<Rightarrow> \<lparr>edges = es, trees = None, tracks = None\<rparr>
         | Some tbl \<Rightarrow>
             \<lparr>edges = es,
              trees = Some [\<lparr>treeLabel = ''DefaultTree'',
                             treePaths = map (\<lambda>(k, rlabel). treepath rlabel) tbl\<rparr>],
              tracks = Some [\<lparr>trackLabel = ''DefaultTrack'',
                              trackProperties =
                                map (\<lambda>(k, rlabel).
                                       \<lparr>nodeName = label rlabel, nodeColor = color rlabel,
                                        nodeSize = 1.0\<rparr>) tbl\<rparr>]\<rparr>)"

subsection \<open>What the loop computes, record by record\<close>

text \<open>
  The residue key of an atom, the canonically ordered pair of residue keys of a
  contact, and the dict key \<^verbatim>\<open>contact_key\<close> under which the loop files the contact: the
  two keys of the pair, concatenated.
\<close>

definition residue_key :: "atom \<Rightarrow> string" where
  "residue_key a = join '':'' (take 3 a)"

definition canonical_pair :: "stripped_contact \<Rightarrow> string \<times> string" where
  "canonical_pair c =
     (case c of (frame, itype, atom1, atom2) \<Rightarrow>
        if residue_key atom1 > residue_key atom2
        then (residue_key atom2, residue_key atom1)
        else (residue_key atom1, residue_key atom2))"

definition contact_key_of :: "stripped_contact \<Rightarrow> string" where
  "contact_key_of c = fst (canonical_pair c) @ snd (canonical_pair c)"

text \<open>
  A contact is kept when its two residue keys differ and, with a label table that is
  not empty, both keys are in the table.
\<close>

definition kept :: "resi_labels option \<Rightarrow> stripped_contact \<Rightarrow> bool" where
  "kept resi_labels c =
     (fst (canonical_pair c) \<noteq> snd (canonical_pair c) \<and>
      (case resi_labels of
         Some (l # ls) \<Rightarrow>
           map_of (l # ls) (fst (canonical_pair c)) \<noteq> None \<and>
           map_of (l # ls) (snd (canonical_pair c)) \<noteq> None
       | _ \<Rightarrow> True))"

text \<open>The two names an edge gets from the contact that creates it.\<close>

definition edge_names :: "resi_labels option \<Rightarrow> stripped_contact \<Rightarrow> string \<times> string" where
  "edge_names resi_labels c =
     (case resi_labels of
        Some (l # ls) \<Rightarrow>
          (label (the (map_of (l # ls) (fst (canonical_pair c)))),
           label (the (map_of (l # ls) (snd (canonical_pair c)))))
      | _ \<Rightarrow> canonical_pair c)"

text \<open>The contact keys of a list of contacts, each once, in the order of first occurrence.\<close>

definition first_keys :: "stripped_contact list \<Rightarrow> string list" where
  "first_keys cs = rev (remdups (rev (map contact_key_of cs)))"

text \<open>
  The edge of a contact key before the frames are sorted: named by the first contact
  filed under the key, with the frames of all contacts filed under it, in order.
\<close>

definition raw_edge :: "resi_labels option \<Rightarrow> stripped_contact list \<Rightarrow> string \<Rightarrow> edge" where
  "raw_edge resi_labels cs k =
     (let filed = filter (\<lambda>c. contact_key_of c = k) cs
      in \<lparr>name1 = fst (edge_names resi_labels (hd filed)),
          name2 = snd (edge_names resi_labels (hd filed)),
          frames = map fst filed\<rparr>)"

text \<open>
  The invariant of the loop after the kept contacts \<open>K\<close>: the store holds the edges of
  the contact keys in order of first occurrence, and \<^verbatim>\<open>resi_edges\<close> maps each key to the
  position of its edge.
\<close>

definition loop_inv :: "resi_labels option \<Rightarrow> stripped_contact list \<Rightarrow> graph_state \<Rightarrow> bool" where
  "loop_inv L K st =
     (ret_edges st = map (raw_edge L K) (first_keys K) \<and>
      (\<forall>k i. (resi_edges st k = Some i) = (i < length (first_keys K) \<and> first_keys K ! i = k)))"

text \<open>The edge of a contact key in the output: the frames sorted, each once.\<close>

definition final_edge :: "resi_labels option \<Rightarrow> stripped_contact list \<Rightarrow> string \<Rightarrow> edge" where
  "final_edge L K k = (raw_edge L K k)\<lparr>frames := sorted_list_of_set (set (frames (raw_edge L K k)))\<rparr>"

section \<open>The flare graph builder that runs (create_flare)\<close>

text \<open>
  Modelled from the spec: \<^verbatim>\<open>main\<close> builds the graph with \<^verbatim>\<open>create_flare\<close> of the module
  \<^verbatim>\<open>contact_calc.flare\<close>, which is not among the sources. The definitions of this section
  follow the data model (section 3) and the Flare Graph Builder (section 4.5) of the
  specification, sentence by sentence. Contacts, atoms, residue keys and label tables
  are those of the sections above.

  A FlareEdge: two residue keys and a set of frame indices.
\<close>

record flare_edge =
  residue_key_1 :: string
  residue_key_2 :: string
  frame_set :: "int set"

definition edge_pair :: "flare_edge \<Rightarrow> string \<times> string" where
  "edge_pair e = (residue_key_1 e, residue_key_2 e)"

text \<open>
  Modelled from the spec: "Canonicalize the residue-key pair by lexicographic order so
  (X,Y) and (Y,X) merge"; the canonical form has the smaller key first.
\<close>

definition record_pair :: "contact \<Rightarrow> string \<times> string" where
  "record_pair c =
     (case c of (frame, itype, atom1, atom2, waters) \<Rightarrow>
        let k1 = residue_key atom1; k2 = residue_key atom2
        in if k2 < k1 then (k2, k1) else (k1, k2))"

text \<open>
  Modelled from the spec: "Skip records whose two participant residues are identical".
\<close>

definition self_contact :: "contact \<Rightarrow> bool" where
  "self_contact c =
     (case c of (frame, itype, atom1, atom2, waters) \<Rightarrow> residue_key atom1 = residue_key atom2)"

text \<open>
  Modelled from the spec: "if a label table is supplied, any record whose either
  residue key is absent from the table is dropped entirely". A supplied table is
  \<open>Some t\<close>, whatever \<open>t\<close> holds.
\<close>

definition label_miss :: "resi_labels option \<Rightarrow> string \<times> string \<Rightarrow> bool" where
  "label_miss table p =
     (case table of
        None \<Rightarrow> False
      | Some t \<Rightarrow> map_of t (fst p) = None \<or> map_of t (snd p) = None)"

text \<open>
  Modelled from the spec: "Look up or create the FlareEdge for the canonical pair;
  append the frame index to its frame set". The edges are kept in first-seen order.
\<close>

fun upsert_edge :: "string \<times> string \<Rightarrow> int \<Rightarrow> flare_edge list \<Rightarrow> flare_edge list" where
  "upsert_edge p frame [] =
     [\<lparr>residue_key_1 = fst p, residue_key_2 = snd p, frame_set = {frame}\<rparr>]"
| "upsert_edge p frame (e # es) =
     (if (residue_key_1 e, residue_key_2 e) = p
      then e\<lparr>frame_set := insert frame (frame_set e)\<rparr> # es
      else e # upsert_edge p frame es)"

text \<open>
  Modelled from the spec: the state of the aggregation pass, the edges and the
  diagnostics of the dropped records ("edge dropped, diagnostic emitted"; per-record
  conditions are "aggregated into a diagnostic count/log rather than propagated").
\<close>

record builder_state =
  flare_edges :: "flare_edge list"
  diagnostics :: "contact list"

text \<open>
  Modelled from the spec: one record of the stream, in the order of section 4.5: the
  self-contact test, the canonical pair, the label filter "before edge creation", then
  the edge.
\<close>

definition flare_step :: "resi_labels option \<Rightarrow> builder_state \<Rightarrow> contact \<Rightarrow> builder_state" where
  "flare_step table st c =
     (if self_contact c then st
      else if label_miss table (record_pair c) then st\<lparr>diagnostics := diagnostics st @ [c]\<rparr>
      else st\<lparr>flare_edges := upsert_edge (record_pair c) (fst c) (flare_edges st)\<rparr>)"

text \<open>
  Modelled from the spec: the aggregation pass, "a sequential reduction" over the
  record stream.
\<close>

definition aggregate :: "resi_labels option \<Rightarrow> contact list \<Rightarrow> builder_state" where
  "aggregate table contacts =
     foldl (flare_step table) \<lparr>flare_edges = [], diagnostics = []\<rparr> contacts"

text \<open>
  Modelled from the spec: "Look up ... the FlareEdge for the canonical pair": the edge
  of a record among the edges.
\<close>

definition edge_of :: "flare_edge list \<Rightarrow> contact \<Rightarrow> flare_edge option" where
  "edge_of es c = find (\<lambda>e. edge_pair e = record_pair c) es"

text \<open>
  Modelled from the spec: "edge endpoints are rendered using the table's display label
  instead of the raw residue key".
\<close>

definition display_label :: "resi_labels option \<Rightarrow> string \<Rightarrow> string" where
  "display_label table k =
     (case table of
        None \<Rightarrow> k
      | Some t \<Rightarrow> (case map_of t k of Some r \<Rightarrow> label r | None \<Rightarrow> k))"

text \<open>
  Modelled from the spec: "each edge's frame set is rendered as a sorted,
  duplicate-free ascending sequence"; an edge of the output has the fields name1,
  name2 and frames.
\<close>

definition render_edge :: "resi_labels option \<Rightarrow> flare_edge \<Rightarrow> edge" where
  "render_edge table e =
     \<lparr>name1 = display_label table (residue_key_1 e),
      name2 = display_label table (residue_key_2 e),
      frames = sorted_list_of_set (frame_set e)\<rparr>"

text \<open>
  Modelled from the spec: the FlareGraph, with the tree paths and the track entries
  (display label, color, size 1.0) of the label table when one is supplied.
\<close>

record flare_graph =
  graph_edges :: "edge list"
  tree_paths :: "string list option"
  track_entries :: "(string \<times> string \<times> real) list option"

definition create_flare :: "contact list \<Rightarrow> resi_labels option \<Rightarrow> flare_graph" where
  "create_flare contacts table =
     \<lparr>graph_edges = map (render_edge table) (flare_edges (aggregate table contacts)),
      tree_paths = map_option (map (\<lambda>(k, r). treepath r)) table,
      track_entries = map_option (map (\<lambda>(k, r). (label r, color r, 1.0))) table\<rparr>"

subsection \<open>What the aggregation computes\<close>

text \<open>
  The records that reach an edge, the canonical pairs in first-seen order, the frames
  of a pair, and the edge of a pair with given frames.
\<close>

definition accepted :: "resi_labels option \<Rightarrow> contact \<Rightarrow> bool" where
  "accepted table c = (\<not> self_contact c \<and> \<not> label_miss table (record_pair c))"

definition pairs_seen :: "contact list \<Rightarrow> (string \<times> string) list" where
  "pairs_seen cs = rev (remdups (rev (map record_pair cs)))"

definition frames_of :: "contact list \<Rightarrow> string \<times> string \<Rightarrow> int set" where
  "frames_of cs p = set (map fst (filter (\<lambda>c. record_pair c = p) cs))"

definition pair_edge :: "(string \<times> string \<Rightarrow> int set) \<Rightarrow> string \<times> string \<Rightarrow> flare_edge" where
  "pair_edge F p = \<lparr>residue_key_1 = fst p, residue_key_2 = snd p, frame_set = F p\<rparr>"

section \<open>Properties of the salt-bridge detector\<close>

subsection \<open>The double loop as a comprehension\<close>

lemma pair_step_alt:
  "pair_step P m f sa cutoff a st c =
     (if reaches_geometry sa a c
      then st\<lparr>distance_queries := distance_queries st @ [(a, c)],
              salt_bridges := salt_bridges st @
                (if compute_distance P m f a c < cutoff then [(f, ''sb'', a, c)] else [])\<rparr>
      else st)"
  by (cases sa) (auto simp: pair_step_def reaches_geometry_def Let_def)

lemma cation_loop_salt_bridges:
  "salt_bridges (foldl (pair_step P m f sa cutoff a) st cs) =
     salt_bridges st @
       [(f, ''sb'', a, c). c \<leftarrow> cs, reaches_geometry sa a c \<and> compute_distance P m f a c < cutoff]"
  by (induction cs arbitrary: st) (simp_all add: pair_step_alt)

lemma cation_loop_queries:
  "distance_queries (foldl (pair_step P m f sa cutoff a) st cs) =
     distance_queries st @ [(a, c). c \<leftarrow> cs, reaches_geometry sa a c]"
  by (induction cs arbitrary: st) (simp_all add: pair_step_alt)

lemma anion_loop_salt_bridges:
  "salt_bridges (foldl (\<lambda>st a. foldl (pair_step P m f sa cutoff a) st cs) st as) =
     salt_bridges st @
       [(f, ''sb'', a, c). a \<leftarrow> as, c \<leftarrow> cs,
          reaches_geometry sa a c \<and> compute_distance P m f a c < cutoff]"
  by (induction as arbitrary: st) (simp_all add: cation_loop_salt_bridges)

lemma anion_loop_queries:
  "distance_queries (foldl (\<lambda>st a. foldl (pair_step P m f sa cutoff a) st cs) st as) =
     distance_queries st @ [(a, c). a \<leftarrow> as, c \<leftarrow> cs, reaches_geometry sa a c]"
  by (induction as arbitrary: st) (simp_all add: cation_loop_queries)

lemma compute_salt_bridges_eq:
  "compute_salt_bridges P m f s1 s2 cutoff =
     [(f, ''sb'', a, c).
        a \<leftarrow> get_anion_atoms P m f s1 s2, c \<leftarrow> get_cation_atoms P m f s1 s2,
        reaches_geometry (selection_atoms P m f s1 s2) a c \<and> compute_distance P m f a c < cutoff]"
  by (simp add: compute_salt_bridges_def salt_bridge_loop_def prep_salt_bridge_computation_def
      anion_loop_salt_bridges)

lemma distance_calls_eq:
  "distance_calls P m f s1 s2 cutoff =
     [(a, c).
        a \<leftarrow> get_anion_atoms P m f s1 s2, c \<leftarrow> get_cation_atoms P m f s1 s2,
        reaches_geometry (selection_atoms P m f s1 s2) a c]"
  by (simp add: distance_calls_def salt_bridge_loop_def prep_salt_bridge_computation_def
      anion_loop_queries)

lemma example_provider2_simps:
  "get_anion_atoms example_provider2 = get_anion_atoms example_provider"
  "get_cation_atoms example_provider2 = get_cation_atoms example_provider"
  "get_selection_atoms example_provider2 = get_selection_atoms example_provider"
  by (simp_all add: example_provider2_def)

lemmas example_run =
  example_provider_def reaches_geometry_def selection_atoms_def
  filter_dual_selection_salt_bridges_def

text \<open>
  C2. With the selections \<open>sel1\<close> and \<open>sel2\<close>, the filter lets a pair (atomA, atomB)
  through to the distance test exactly when atomA is in \<open>sel1\<close> and atomB in \<open>sel2\<close>, or
  atomA is in \<open>sel2\<close> and atomB in \<open>sel1\<close>; the function itself returns True ("filter
  out") exactly otherwise. For two different atoms A and B, with the selections {A} and
  {B}: the pair (A, B) is accepted, every pair (A, A') with A' in {A} is rejected, and
  every pair (B, B') with B' in {B} is rejected.
\<close>

theorem selection_scope_filter_iff:
  "(filter_dual_selection_salt_bridges sel1 sel2 atomA atomB =
      (\<not> ((atomA \<in> set sel1 \<and> atomB \<in> set sel2) \<or> (atomA \<in> set sel2 \<and> atomB \<in> set sel1))))
   \<and> (reaches_geometry (Some (sel1, sel2)) atomA atomB =
      ((atomA \<in> set sel1 \<and> atomB \<in> set sel2) \<or> (atomA \<in> set sel2 \<and> atomB \<in> set sel1)))
   \<and> (A \<noteq> B \<longrightarrow>
        reaches_geometry (Some ([A], [B])) A B
      \<and> (\<forall>A' \<in> set [A]. \<not> reaches_geometry (Some ([A], [B])) A A')
      \<and> (\<forall>B' \<in> set [B]. \<not> reaches_geometry (Some ([A], [B])) B B'))"
  by (auto simp: filter_dual_selection_salt_bridges_def reaches_geometry_def Let_def)

theorem selection_scope_filter_iff_witness:
  "''A'' \<noteq> ''B'' \<and> reaches_geometry (Some ([''A''], [''B''])) ''A'' ''B''
     \<and> \<not> reaches_geometry (Some ([''A''], [''B''])) ''A'' ''A''
     \<and> \<not> reaches_geometry (Some ([''A''], [''B''])) ''B'' ''B''"
  using selection_scope_filter_iff [of "[''A'']" "[''B'']" "''A''" "''B''" "''A''" "''B''"]
  by simp

text \<open>
  C3. Every reported salt bridge is a record (frame_idx, "sb", anion, cation) of a pair
  that was distance-tested and whose distance is below the cutoff. For a pair that is
  distance-tested, the record is reported exactly when the provider's distance in that
  frame is strictly below the cutoff: not at a distance equal to the cutoff, and at
  every distance cutoff - \<epsilon> with \<epsilon> > 0. The default cutoff is 4.
\<close>

theorem salt_bridge_cutoff_strict:
  "(\<forall>r \<in> set (compute_salt_bridges P m f s1 s2 cutoff).
      \<exists>a c. r = (f, ''sb'', a, c) \<and> (a, c) \<in> set (distance_calls P m f s1 s2 cutoff)
            \<and> compute_distance P m f a c < cutoff)
   \<and> ((a, c) \<in> set (distance_calls P m f s1 s2 cutoff) \<longrightarrow>
        (((f, ''sb'', a, c) \<in> set (compute_salt_bridges P m f s1 s2 cutoff)) =
           (compute_distance P m f a c < cutoff))
      \<and> (compute_distance P m f a c = cutoff \<longrightarrow>
            (f, ''sb'', a, c) \<notin> set (compute_salt_bridges P m f s1 s2 cutoff))
      \<and> (\<forall>\<epsilon>>0. compute_distance P m f a c = cutoff - \<epsilon> \<longrightarrow>
            (f, ''sb'', a, c) \<in> set (compute_salt_bridges P m f s1 s2 cutoff)))
   \<and> SALT_BRIDGE_CUTOFF_DISTANCE = 4"
  by (auto simp: compute_salt_bridges_eq distance_calls_eq SALT_BRIDGE_CUTOFF_DISTANCE_def)

theorem salt_bridge_cutoff_strict_witness:
  "(''B:GLU:7:OE1'', ''A:ARG:9:NH1'') \<in> set (distance_calls example_provider 0 0 None None 4)
   \<and> compute_distance example_provider 0 0 ''B:GLU:7:OE1'' ''A:ARG:9:NH1'' = 4
   \<and> (0, ''sb'', ''B:GLU:7:OE1'', ''A:ARG:9:NH1'')
        \<notin> set (compute_salt_bridges example_provider 0 0 None None 4)
   \<and> (''A:ASP:1:OD1'', ''B:LYS:2:NZ'') \<in> set (distance_calls example_provider 0 0 None None 4)
   \<and> (0 :: real) < 1 / 10
   \<and> compute_distance example_provider 0 0 ''A:ASP:1:OD1'' ''B:LYS:2:NZ'' = 4 - 1 / 10
   \<and> (0, ''sb'', ''A:ASP:1:OD1'', ''B:LYS:2:NZ'')
        \<in> set (compute_salt_bridges example_provider 0 0 None None 4)"
proof -
  have q: "(''B:GLU:7:OE1'', ''A:ARG:9:NH1'') \<in> set (distance_calls example_provider 0 0 None None 4)"
    by (simp add: distance_calls_eq example_run)
  have d: "compute_distance example_provider 0 0 ''B:GLU:7:OE1'' ''A:ARG:9:NH1'' = 4"
    by (simp add: example_provider_def)
  have q': "(''A:ASP:1:OD1'', ''B:LYS:2:NZ'') \<in> set (distance_calls example_provider 0 0 None None 4)"
    by (simp add: distance_calls_eq example_run)
  have d': "compute_distance example_provider 0 0 ''A:ASP:1:OD1'' ''B:LYS:2:NZ'' = 4 - 1 / 10"
    by (simp add: example_provider_def)
  have e: "(0 :: real) < 1 / 10" by simp
  from salt_bridge_cutoff_strict [of example_provider 0 0 None None 4
      "''B:GLU:7:OE1''" "''A:ARG:9:NH1''"] q d
  have n: "(0, ''sb'', ''B:GLU:7:OE1'', ''A:ARG:9:NH1'')
        \<notin> set (compute_salt_bridges example_provider 0 0 None None 4)"
    by blast
  from salt_bridge_cutoff_strict [of example_provider 0 0 None None 4
      "''A:ASP:1:OD1''" "''B:LYS:2:NZ''"] q' d' e
  have y: "(0, ''sb'', ''A:ASP:1:OD1'', ''B:LYS:2:NZ'')
        \<in> set (compute_salt_bridges example_provider 0 0 None None 4)"
    by blast
  from q d n q' e d' y show ?thesis by blast
qed

text \<open>
  C8. With two selection queries, let two providers agree on the candidate atoms, on
  the selections, and on the distance of every pair that the filter accepts. Then the
  two runs report the same contacts, whatever the distances of the rejected pairs are,
  and no rejected pair is among the distance queries of the run.
\<close>

theorem rejected_pairs_never_queried:
  assumes "s1 \<noteq> None" and "s2 \<noteq> None"
    and "get_anion_atoms P' m f s1 s2 = get_anion_atoms P m f s1 s2"
    and "get_cation_atoms P' m f s1 s2 = get_cation_atoms P m f s1 s2"
    and "get_selection_atoms P' m f (the s1) = get_selection_atoms P m f (the s1)"
    and "get_selection_atoms P' m f (the s2) = get_selection_atoms P m f (the s2)"
    and "\<forall>a c. \<not> filter_dual_selection_salt_bridges
                    (get_selection_atoms P m f (the s1)) (get_selection_atoms P m f (the s2)) a c
               \<longrightarrow> compute_distance P' m f a c = compute_distance P m f a c"
  shows "compute_salt_bridges P' m f s1 s2 cutoff = compute_salt_bridges P m f s1 s2 cutoff
       \<and> (\<forall>(a, c) \<in> set (distance_calls P m f s1 s2 cutoff).
            \<not> filter_dual_selection_salt_bridges
                (get_selection_atoms P m f (the s1)) (get_selection_atoms P m f (the s2)) a c)"
proof -
  have sa: "selection_atoms P' m f s1 s2 = selection_atoms P m f s1 s2"
    using assms by (simp add: selection_atoms_def)
  have sa2: "selection_atoms P m f s1 s2 =
      Some (get_selection_atoms P m f (the s1), get_selection_atoms P m f (the s2))"
    using assms by (simp add: selection_atoms_def)
  have eq: "\<And>a c.
      (reaches_geometry (selection_atoms P m f s1 s2) a c \<and> compute_distance P' m f a c < cutoff)
      = (reaches_geometry (selection_atoms P m f s1 s2) a c \<and> compute_distance P m f a c < cutoff)"
    using assms(7) by (auto simp: sa2 reaches_geometry_def)
  have "compute_salt_bridges P' m f s1 s2 cutoff = compute_salt_bridges P m f s1 s2 cutoff"
    by (simp add: compute_salt_bridges_eq sa assms(3,4) eq)
  moreover have "\<forall>(a, c) \<in> set (distance_calls P m f s1 s2 cutoff).
            \<not> filter_dual_selection_salt_bridges
                (get_selection_atoms P m f (the s1)) (get_selection_atoms P m f (the s2)) a c"
    by (auto simp: distance_calls_eq sa2 reaches_geometry_def)
  ultimately show ?thesis by blast
qed

theorem rejected_pairs_never_queried_witness:
  "compute_distance example_provider2 0 0 ''A:ASP:1:OD1'' ''A:ARG:9:NH1''
     \<noteq> compute_distance example_provider 0 0 ''A:ASP:1:OD1'' ''A:ARG:9:NH1''
   \<and> compute_salt_bridges example_provider2 0 0 (Some ''chain A'') (Some ''chain B'') 4
     = compute_salt_bridges example_provider 0 0 (Some ''chain A'') (Some ''chain B'') 4
   \<and> compute_salt_bridges example_provider 0 0 (Some ''chain A'') (Some ''chain B'') 4
     = [(0, ''sb'', ''A:ASP:1:OD1'', ''B:LYS:2:NZ'')]
   \<and> distance_calls example_provider 0 0 (Some ''chain A'') (Some ''chain B'') 4
     = [(''A:ASP:1:OD1'', ''B:LYS:2:NZ''), (''B:GLU:7:OE1'', ''A:ARG:9:NH1'')]"
proof -
  have h: "\<forall>a c. \<not> filter_dual_selection_salt_bridges
                    (get_selection_atoms example_provider 0 0 (the (Some ''chain A'')))
                    (get_selection_atoms example_provider 0 0 (the (Some ''chain B''))) a c
               \<longrightarrow> compute_distance example_provider2 0 0 a c
                   = compute_distance example_provider 0 0 a c"
    by (auto simp: example_provider2_def example_provider_def
        filter_dual_selection_salt_bridges_def)
  have d: "compute_distance example_provider2 0 0 ''A:ASP:1:OD1'' ''A:ARG:9:NH1''
     \<noteq> compute_distance example_provider 0 0 ''A:ASP:1:OD1'' ''A:ARG:9:NH1''"
    by (simp add: example_provider2_def example_provider_def)
  have r: "compute_salt_bridges example_provider 0 0 (Some ''chain A'') (Some ''chain B'') 4
     = [(0, ''sb'', ''A:ASP:1:OD1'', ''B:LYS:2:NZ'')]"
    by (simp add: compute_salt_bridges_eq example_run)
  have q: "distance_calls example_provider 0 0 (Some ''chain A'') (Some ''chain B'') 4
     = [(''A:ASP:1:OD1'', ''B:LYS:2:NZ''), (''B:GLU:7:OE1'', ''A:ARG:9:NH1'')]"
    by (simp add: distance_calls_eq example_run)
  from rejected_pairs_never_queried [of "Some ''chain A''" "Some ''chain B''" example_provider2
      0 0 example_provider 4, OF _ _ _ _ _ _ h]
  have "compute_salt_bridges example_provider2 0 0 (Some ''chain A'') (Some ''chain B'') 4
     = compute_salt_bridges example_provider 0 0 (Some ''chain A'') (Some ''chain B'') 4"
    by (simp add: example_provider2_simps)
  with d r q show ?thesis by blast
qed

text \<open>
  C9. When one of the two selection queries is None, no pair is filtered: the distance
  of every pair of the cross product of the anion and cation candidates is queried, in
  loop order, and the reported contacts are exactly the pairs whose distance is below
  the cutoff.
\<close>

theorem no_pair_filter_without_both_queries:
  assumes "s1 = None \<or> s2 = None"
  shows "compute_salt_bridges P m f s1 s2 cutoff =
           [(f, ''sb'', a, c).
              a \<leftarrow> get_anion_atoms P m f s1 s2, c \<leftarrow> get_cation_atoms P m f s1 s2,
              compute_distance P m f a c < cutoff]
       \<and> distance_calls P m f s1 s2 cutoff =
           [(a, c). a \<leftarrow> get_anion_atoms P m f s1 s2, c \<leftarrow> get_cation_atoms P m f s1 s2]"
  using assms
  by (auto simp: compute_salt_bridges_eq distance_calls_eq selection_atoms_def
      reaches_geometry_def)

theorem no_pair_filter_without_both_queries_witness:
  "compute_salt_bridges example_provider 0 0 (Some ''chain A'') None 4 =
     [(0, ''sb'', ''A:ASP:1:OD1'', ''B:LYS:2:NZ''), (0, ''sb'', ''A:ASP:1:OD1'', ''A:ARG:9:NH1'')]
   \<and> distance_calls example_provider 0 0 (Some ''chain A'') None 4 =
     [(''A:ASP:1:OD1'', ''B:LYS:2:NZ''), (''A:ASP:1:OD1'', ''A:ARG:9:NH1''),
      (''B:GLU:7:OE1'', ''B:LYS:2:NZ''), (''B:GLU:7:OE1'', ''A:ARG:9:NH1'')]"
  using no_pair_filter_without_both_queries [of "Some ''chain A''" None example_provider 0 0 4]
  by (simp add: example_provider_def)

text \<open>
  C7. The claim: the detector works in every frame with the candidate atoms of the
  first frame. The code: \<^verbatim>\<open>compute_salt_bridges\<close> calls \<^verbatim>\<open>prep_salt_bridge_computation\<close> with
  its own \<^verbatim>\<open>frame_idx\<close>, on every call. With a provider whose anion candidates differ
  between frame 0 and frame 1, the run on frame 1 uses the candidates of frame 1: the
  ASP atom, a candidate of frame 0 that lies within the cutoff of the LYS atom in
  frame 1, is not tested and no contact is reported.
\<close>

theorem candidates_follow_frame:
  "prep_salt_bridge_computation example_provider 0 0 (Some ''within 5 of resname LIG'') None
     = ([''A:ASP:1:OD1'', ''B:GLU:7:OE1''], [''B:LYS:2:NZ'', ''A:ARG:9:NH1''])
   \<and> prep_salt_bridge_computation example_provider 0 1 (Some ''within 5 of resname LIG'') None
     = ([''B:GLU:7:OE1''], [''B:LYS:2:NZ'', ''A:ARG:9:NH1''])
   \<and> compute_distance example_provider 0 1 ''A:ASP:1:OD1'' ''B:LYS:2:NZ''
       < SALT_BRIDGE_CUTOFF_DISTANCE
   \<and> compute_salt_bridges example_provider 0 0 (Some ''within 5 of resname LIG'') None
       SALT_BRIDGE_CUTOFF_DISTANCE = [(0, ''sb'', ''A:ASP:1:OD1'', ''B:LYS:2:NZ''),
                                      (0, ''sb'', ''A:ASP:1:OD1'', ''A:ARG:9:NH1'')]
   \<and> compute_salt_bridges example_provider 0 1 (Some ''within 5 of resname LIG'') None
       SALT_BRIDGE_CUTOFF_DISTANCE = []"
  by (simp add: compute_salt_bridges_eq example_provider_def reaches_geometry_def
        selection_atoms_def prep_salt_bridge_computation_def SALT_BRIDGE_CUTOFF_DISTANCE_def)

section \<open>Properties of parse_itypes\<close>

lemma take_length_eq_iff: "(take (length sub) s = sub) = (\<exists>ys. s = sub @ ys)"
  by (metis append_eq_conv_conj append_take_drop_id)

lemma str_in_iff: "str_in sub s = (\<exists>xs ys. s = xs @ sub @ ys)"
proof (induction s)
  case Nil
  show ?case by auto
next
  case (Cons c cs)
  have "(\<exists>xs ys. c # cs = xs @ sub @ ys) =
        ((\<exists>ys. c # cs = sub @ ys) \<or> (\<exists>xs ys. cs = xs @ sub @ ys))"
  proof
    assume "\<exists>xs ys. c # cs = xs @ sub @ ys"
    then obtain xs ys where e: "c # cs = xs @ sub @ ys" by blast
    show "(\<exists>ys. c # cs = sub @ ys) \<or> (\<exists>xs ys. cs = xs @ sub @ ys)"
    proof (cases xs)
      case Nil
      with e show ?thesis by auto
    next
      case (Cons x xs')
      with e have "cs = xs' @ sub @ ys" by simp
      then show ?thesis by blast
    qed
  next
    assume "(\<exists>ys. c # cs = sub @ ys) \<or> (\<exists>xs ys. cs = xs @ sub @ ys)"
    then show "\<exists>xs ys. c # cs = xs @ sub @ ys"
    proof
      assume "\<exists>ys. c # cs = sub @ ys"
      then obtain ys where "c # cs = [] @ sub @ ys" by auto
      then show ?thesis by blast
    next
      assume "\<exists>xs ys. cs = xs @ sub @ ys"
      then obtain xs ys where "c # cs = (c # xs) @ sub @ ys" by auto
      then show ?thesis by blast
    qed
  qed
  with Cons show ?case by (simp only: str_in.simps take_length_eq_iff)
qed

lemma split_str_not_Nil: "split_str sep s \<noteq> []"
  by (induction s) auto

lemma join_Cons: "join sep (x # xs) = (if xs = [] then x else x @ sep @ join sep xs)"
  by (cases xs) auto

lemma join_split_str: "join [sep] (split_str sep s) = s"
proof (induction s)
  case Nil
  show ?case by simp
next
  case (Cons c cs)
  show ?case
  proof (cases "c = sep")
    case True
    with Cons show ?thesis by (simp add: join_Cons split_str_not_Nil)
  next
    case False
    obtain t ts where r: "split_str sep cs = t # ts"
      using split_str_not_Nil [of sep cs] by (cases "split_str sep cs") auto
    with Cons False show ?thesis by (auto simp: join_Cons split: if_splits)
  qed
qed

lemma split_str_no_sep: "t \<in> set (split_str sep s) \<Longrightarrow> sep \<notin> set t"
proof (induction s arbitrary: t)
  case Nil
  then show ?case by simp
next
  case (Cons c cs)
  obtain u us where r: "split_str sep cs = u # us"
    using split_str_not_Nil [of sep cs] by (cases "split_str sep cs") auto
  show ?case
  proof (cases "c = sep")
    case True
    with Cons show ?thesis by auto
  next
    case False
    with Cons.prems r have "t = c # u \<or> t \<in> set us" by simp
    with Cons.IH r False show ?thesis by auto
  qed
qed

text \<open>
  C10. \<^verbatim>\<open>parse_itypes\<close> returns the list of the 16 known tags whenever "all" occurs
  somewhere in its argument (as in "sb,all" and "ball"). Otherwise it returns the set of
  the tokens of \<^verbatim>\<open>split(",")\<close>, whatever they are: the tokens are the pieces between the
  commas (joined by commas they give the argument back, and none holds a comma), and no
  token is compared with the known tags.
\<close>

theorem parse_itypes_all_or_tokens:
  "(str_in ''all'' arg = (\<exists>xs ys. arg = xs @ ''all'' @ ys))
   \<and> (str_in ''all'' arg \<longrightarrow>
        parse_itypes arg =
          Itype_list [''sb'', ''pc'', ''ps'', ''ts'', ''vdw'', ''hb'', ''lhb'', ''hbbb'', ''hbsb'',
                      ''hbss'', ''wb'', ''wb2'', ''hls'', ''hlb'', ''lwb'', ''lwb2''])
   \<and> length [''sb'', ''pc'', ''ps'', ''ts'', ''vdw'', ''hb'', ''lhb'', ''hbbb'', ''hbsb'',
              ''hbss'', ''wb'', ''wb2'', ''hls'', ''hlb'', ''lwb'', ''lwb2''] = (16 :: nat)
   \<and> (\<not> str_in ''all'' arg \<longrightarrow>
        parse_itypes arg = Itype_set (set (split_str CHR '','' arg)))
   \<and> join '','' (split_str CHR '','' arg) = arg
   \<and> (\<forall>t \<in> set (split_str CHR '','' arg). CHR '','' \<notin> set t)"
  using str_in_iff [of "''all''" arg]
  by (simp add: parse_itypes_def join_split_str split_str_no_sep)

theorem parse_itypes_all_or_tokens_witness:
  "parse_itypes ''sb,all'' =
     Itype_list [''sb'', ''pc'', ''ps'', ''ts'', ''vdw'', ''hb'', ''lhb'', ''hbbb'', ''hbsb'',
                 ''hbss'', ''wb'', ''wb2'', ''hls'', ''hlb'', ''lwb'', ''lwb2'']
   \<and> parse_itypes ''ball'' =
     Itype_list [''sb'', ''pc'', ''ps'', ''ts'', ''vdw'', ''hb'', ''lhb'', ''hbbb'', ''hbsb'',
                 ''hbss'', ''wb'', ''wb2'', ''hls'', ''hlb'', ''lwb'', ''lwb2'']
   \<and> parse_itypes ''sb,bogus,,hb'' = Itype_set {''sb'', ''bogus'', '''', ''hb''}
   \<and> CHR '','' \<notin> set ''bogus''"
proof -
  have a: "str_in ''all'' ''sb,all''" by simp
  have b: "str_in ''all'' ''ball''" by simp
  have c: "\<not> str_in ''all'' ''sb,bogus,,hb''" by simp
  have s: "split_str CHR '','' ''sb,bogus,,hb'' = [''sb'', ''bogus'', '''', ''hb'']" by simp
  have "CHR '','' \<notin> set ''bogus''"
    using parse_itypes_all_or_tokens [of "''sb,bogus,,hb''"] by (simp add: s)
  with parse_itypes_all_or_tokens [of "''sb,all''"] a
    parse_itypes_all_or_tokens [of "''ball''"] b
    parse_itypes_all_or_tokens [of "''sb,bogus,,hb''"] c s
  show ?thesis by simp
qed

section \<open>Properties of create_graph\<close>

subsection \<open>The loop files every kept contact under its contact key\<close>

lemma add_contact_alt:
  "add_contact L st c =
     (if kept L c
      then append_frame (fst (edge_names L c)) (snd (edge_names L c)) (contact_key_of c) (fst c) st
      else if fst (canonical_pair c) = snd (canonical_pair c) then st
      else st\<lparr>printed := printed st @ [c]\<rparr>)"
proof (cases c)
  case (fields frame itype atom1 atom2)
  show ?thesis
  proof (cases L)
    case None
    then show ?thesis
      by (auto simp: fields add_contact_def kept_def edge_names_def contact_key_of_def
          canonical_pair_def residue_key_def Let_def)
  next
    case (Some tbl)
    show ?thesis
    proof (cases tbl)
      case Nil
      with Some show ?thesis
        by (auto simp: fields add_contact_def kept_def edge_names_def contact_key_of_def
            canonical_pair_def residue_key_def Let_def)
    next
      case (Cons l ls)
      with Some show ?thesis
        by (auto simp: fields add_contact_def kept_def edge_names_def contact_key_of_def
            canonical_pair_def residue_key_def Let_def split: option.splits)
    qed
  qed
qed


lemma set_first_keys: "set (first_keys cs) = contact_key_of ` set cs"
  by (simp add: first_keys_def)

lemma distinct_first_keys: "distinct (first_keys cs)"
  by (simp add: first_keys_def)

lemma first_keys_snoc:
  "first_keys (cs @ [c]) =
     (if contact_key_of c \<in> contact_key_of ` set cs then first_keys cs
      else first_keys cs @ [contact_key_of c])"
  by (simp add: first_keys_def)

lemma raw_edge_snoc_other:
  "k \<noteq> contact_key_of c \<Longrightarrow> raw_edge L (cs @ [c]) k = raw_edge L cs k"
  by (auto simp: raw_edge_def)

lemma filed_empty_iff:
  "(filter (\<lambda>c. contact_key_of c = k) cs = []) = (k \<notin> contact_key_of ` set cs)"
  by (auto simp: filter_empty_conv)

lemma raw_edge_snoc_new:
  "contact_key_of c \<notin> contact_key_of ` set cs \<Longrightarrow>
   raw_edge L (cs @ [c]) (contact_key_of c) =
     \<lparr>name1 = fst (edge_names L c), name2 = snd (edge_names L c), frames = [fst c]\<rparr>"
  using filed_empty_iff [of "contact_key_of c" cs] by (simp add: raw_edge_def)

lemma raw_edge_snoc_old:
  "contact_key_of c \<in> contact_key_of ` set cs \<Longrightarrow>
   raw_edge L (cs @ [c]) (contact_key_of c) =
     (raw_edge L cs (contact_key_of c))
       \<lparr>frames := frames (raw_edge L cs (contact_key_of c)) @ [fst c]\<rparr>"
  using filed_empty_iff [of "contact_key_of c" cs] by (simp add: raw_edge_def Let_def)

lemma loop_inv_init: "loop_inv L [] \<lparr>resi_edges = Map.empty, ret_edges = [], printed = []\<rparr>"
  by (simp add: loop_inv_def first_keys_def)

lemma loop_inv_printed: "loop_inv L K (st\<lparr>printed := p\<rparr>) = loop_inv L K st"
  by (simp add: loop_inv_def)

lemma append_frame_new:
  assumes inv: "loop_inv L K st" and new: "contact_key_of c \<notin> contact_key_of ` set K"
  shows "loop_inv L (K @ [c])
           (append_frame (fst (edge_names L c)) (snd (edge_names L c)) (contact_key_of c) (fst c) st)"
proof -
  let ?k = "contact_key_of c"
  let ?keys = "first_keys K"
  have none: "resi_edges st ?k = None"
  proof (cases "resi_edges st ?k")
    case None then show ?thesis .
  next
    case (Some i)
    with inv have "i < length ?keys \<and> ?keys ! i = ?k" by (simp add: loop_inv_def)
    then have "?k \<in> set ?keys" by (metis nth_mem)
    with new show ?thesis by (simp add: set_first_keys)
  qed
  have len: "length (ret_edges st) = length ?keys"
    using inv by (simp add: loop_inv_def)
  have es: "ret_edges (append_frame (fst (edge_names L c)) (snd (edge_names L c)) ?k (fst c) st) =
      ret_edges st @ [\<lparr>name1 = fst (edge_names L c), name2 = snd (edge_names L c), frames = [fst c]\<rparr>]"
    by (simp add: append_frame_def none)
  have re: "resi_edges (append_frame (fst (edge_names L c)) (snd (edge_names L c)) ?k (fst c) st) =
      (resi_edges st)(?k \<mapsto> length ?keys)"
    by (simp add: append_frame_def none len)
  have same: "map (raw_edge L (K @ [c])) ?keys = map (raw_edge L K) ?keys"
  proof (rule map_cong [OF refl])
    fix k
    assume "k \<in> set ?keys"
    moreover have "?k \<notin> set ?keys" using new by (simp add: set_first_keys)
    ultimately have "k \<noteq> ?k" by blast
    then show "raw_edge L (K @ [c]) k = raw_edge L K k" by (rule raw_edge_snoc_other)
  qed
  have e: "ret_edges (append_frame (fst (edge_names L c)) (snd (edge_names L c)) ?k (fst c) st) =
      map (raw_edge L (K @ [c])) (first_keys (K @ [c]))"
    using inv new by (simp add: es first_keys_snoc same raw_edge_snoc_new loop_inv_def)
  have i: "\<forall>k i. (resi_edges (append_frame (fst (edge_names L c)) (snd (edge_names L c)) ?k (fst c) st) k
              = Some i) = (i < length (first_keys (K @ [c])) \<and> first_keys (K @ [c]) ! i = k)"
  proof (intro allI)
    fix k i
    have nin: "?k \<notin> set ?keys" using new by (simp add: set_first_keys)
    show "(resi_edges (append_frame (fst (edge_names L c)) (snd (edge_names L c)) ?k (fst c) st) k
              = Some i) = (i < length (first_keys (K @ [c])) \<and> first_keys (K @ [c]) ! i = k)"
    proof (cases "k = ?k")
      case True
      have "\<And>j. j < length ?keys \<Longrightarrow> ?keys ! j \<noteq> ?k" using nin by (metis nth_mem)
      then show ?thesis
        using new True by (auto simp: re first_keys_snoc nth_append)
    next
      case False
      then show ?thesis
        using new inv by (auto simp: re first_keys_snoc nth_append loop_inv_def)
    qed
  qed
  from e i show ?thesis by (simp add: loop_inv_def)
qed

lemma append_frame_old:
  assumes inv: "loop_inv L K st" and old: "contact_key_of c \<in> contact_key_of ` set K"
  shows "loop_inv L (K @ [c])
           (append_frame (fst (edge_names L c)) (snd (edge_names L c)) (contact_key_of c) (fst c) st)"
proof -
  let ?k = "contact_key_of c"
  let ?keys = "first_keys K"
  from old have "?k \<in> set ?keys" by (simp add: set_first_keys)
  then obtain i where i: "i < length ?keys" "?keys ! i = ?k" by (auto simp: in_set_conv_nth)
  with inv have some: "resi_edges st ?k = Some i" by (simp add: loop_inv_def)
  have es0: "ret_edges st = map (raw_edge L K) ?keys" using inv by (simp add: loop_inv_def)
  have es: "ret_edges (append_frame (fst (edge_names L c)) (snd (edge_names L c)) ?k (fst c) st) =
      (ret_edges st)[i := (ret_edges st ! i)\<lparr>frames := frames (ret_edges st ! i) @ [fst c]\<rparr>]"
    by (simp add: append_frame_def some)
  have re: "resi_edges (append_frame (fst (edge_names L c)) (snd (edge_names L c)) ?k (fst c) st) =
      resi_edges st"
    by (simp add: append_frame_def some)
  have "(map (raw_edge L K) ?keys)
          [i := (map (raw_edge L K) ?keys ! i)
                  \<lparr>frames := frames (map (raw_edge L K) ?keys ! i) @ [fst c]\<rparr>]
        = map (raw_edge L (K @ [c])) ?keys"
  proof (rule nth_equalityI)
    show "length ((map (raw_edge L K) ?keys)
          [i := (map (raw_edge L K) ?keys ! i)
                  \<lparr>frames := frames (map (raw_edge L K) ?keys ! i) @ [fst c]\<rparr>])
        = length (map (raw_edge L (K @ [c])) ?keys)" by simp
  next
    fix j
    assume "j < length ((map (raw_edge L K) ?keys)
          [i := (map (raw_edge L K) ?keys ! i)
                  \<lparr>frames := frames (map (raw_edge L K) ?keys ! i) @ [fst c]\<rparr>])"
    then have j: "j < length ?keys" by simp
    show "(map (raw_edge L K) ?keys)
          [i := (map (raw_edge L K) ?keys ! i)
                  \<lparr>frames := frames (map (raw_edge L K) ?keys ! i) @ [fst c]\<rparr>] ! j
        = map (raw_edge L (K @ [c])) ?keys ! j"
    proof (cases "j = i")
      case True
      with i old show ?thesis by (simp add: raw_edge_snoc_old)
    next
      case False
      with i j distinct_first_keys [of K] have "?keys ! j \<noteq> ?k"
        by (metis nth_eq_iff_index_eq)
      with False j i show ?thesis by (simp add: raw_edge_snoc_other)
    qed
  qed
  with es es0 old have e:
    "ret_edges (append_frame (fst (edge_names L c)) (snd (edge_names L c)) ?k (fst c) st) =
      map (raw_edge L (K @ [c])) (first_keys (K @ [c]))"
    by (simp add: first_keys_snoc)
  from inv old have "\<forall>k i. (resi_edges st k = Some i) =
      (i < length (first_keys (K @ [c])) \<and> first_keys (K @ [c]) ! i = k)"
    by (simp add: first_keys_snoc loop_inv_def)
  with e re show ?thesis by (simp add: loop_inv_def)
qed

lemma add_contact_inv:
  assumes "loop_inv L (filter (kept L) cs) st"
  shows "loop_inv L (filter (kept L) (cs @ [c])) (add_contact L st c)"
proof (cases "kept L c")
  case True
  then show ?thesis
    using assms append_frame_new [of L "filter (kept L) cs" st c]
      append_frame_old [of L "filter (kept L) cs" st c]
    by (cases "contact_key_of c \<in> contact_key_of ` set (filter (kept L) cs)")
       (simp_all add: add_contact_alt)
next
  case False
  then show ?thesis using assms by (simp add: add_contact_alt loop_inv_printed)
qed

lemma loop_refines:
  "loop_inv L (filter (kept L) cs)
     (foldl (add_contact L) \<lparr>resi_edges = Map.empty, ret_edges = [], printed = []\<rparr> cs)"
proof (induction cs rule: rev_induct)
  case Nil
  show ?case by (simp add: loop_inv_init)
next
  case (snoc c cs)
  from add_contact_inv [OF snoc.IH, of c] show ?case by simp
qed

subsection \<open>The edges of the output\<close>

lemma loop_ret_edges:
  "ret_edges (foldl (add_contact L) \<lparr>resi_edges = Map.empty, ret_edges = [], printed = []\<rparr> cs)
     = map (raw_edge L (filter (kept L) cs)) (first_keys (filter (kept L) cs))"
  using loop_refines [of L cs] by (simp add: loop_inv_def)

lemma create_graph_edges:
  "edges (create_graph contacts L) =
     map (final_edge L (filter (kept L) (map strip_atoms contacts)))
         (first_keys (filter (kept L) (map strip_atoms contacts)))"
  by (cases L) (simp_all add: create_graph_def Let_def loop_ret_edges final_edge_def)

lemma create_graph_cong:
  assumes "filter (kept L) (map strip_atoms cs) = filter (kept L) (map strip_atoms cs')"
  shows "create_graph cs L = create_graph cs' L"
  using assms by (cases L) (simp_all add: create_graph_def Let_def loop_ret_edges)

lemma residue_key_strip: "residue_key (take 3 a) = residue_key a"
  by (simp add: residue_key_def)

lemma canonical_pair_strip:
  "canonical_pair (strip_atoms (c0, c1, c2, c3, cs)) =
     (if residue_key c2 > residue_key c3 then (residue_key c3, residue_key c2)
      else (residue_key c2, residue_key c3))"
  by (simp add: canonical_pair_def strip_atoms_def residue_key_strip)

lemma canonical_pair_le: "fst (canonical_pair c) \<le> snd (canonical_pair c)"
  by (cases c) (auto simp: canonical_pair_def)

lemma kept_less: "kept L c \<Longrightarrow> fst (canonical_pair c) < snd (canonical_pair c)"
  using canonical_pair_le [of c] by (auto simp: kept_def less_le)

lemma final_edge_names:
  assumes "k \<in> contact_key_of ` set K"
  shows "\<exists>c \<in> set K. contact_key_of c = k \<and> name1 (final_edge L K k) = fst (edge_names L c)
           \<and> name2 (final_edge L K k) = snd (edge_names L c)"
proof -
  let ?filed = "filter (\<lambda>c. contact_key_of c = k) K"
  from assms have ne: "?filed \<noteq> []" by (simp add: filed_empty_iff)
  then have "hd ?filed \<in> set ?filed" by (rule hd_in_set)
  then have "hd ?filed \<in> set K \<and> contact_key_of (hd ?filed) = k" by simp
  then show ?thesis by (auto simp: final_edge_def raw_edge_def Let_def)
qed

subsection \<open>Self-contacts\<close>

lemmas graph_run = create_graph_def strip_atoms_def add_contact_def append_frame_def Let_def
  sorted_list_of_set_sort_remdups

text \<open>
  C4. The graph has no self-loop. A contact whose two atoms have the same residue key
  leaves the whole loop state as it is: no edge is created and none is changed, so the
  graph is the graph of the contacts without such records. Every edge of the output
  was named by a contact of the input whose two residue keys differ, the smaller key
  first; without a label table the names are these keys, so the first name of every
  edge is strictly below the second.
\<close>

theorem no_self_loop_edges:
  "(residue_key atom1 = residue_key atom2 \<longrightarrow>
      add_contact L st (frame, itype, atom1, atom2) = st)
   \<and> create_graph
        (filter (\<lambda>c. fst (canonical_pair (strip_atoms c)) \<noteq> snd (canonical_pair (strip_atoms c)))
           contacts) L
       = create_graph contacts L
   \<and> (\<forall>e \<in> set (edges (create_graph contacts L)).
        \<exists>c \<in> set contacts.
          fst (canonical_pair (strip_atoms c)) < snd (canonical_pair (strip_atoms c))
          \<and> name1 e = fst (edge_names L (strip_atoms c))
          \<and> name2 e = snd (edge_names L (strip_atoms c)))
   \<and> (\<forall>e \<in> set (edges (create_graph contacts None)). name1 e < name2 e)"
proof -
  have a: "residue_key atom1 = residue_key atom2 \<longrightarrow>
      add_contact L st (frame, itype, atom1, atom2) = st"
    by (simp add: add_contact_def residue_key_def)
  have "filter (kept L) (map strip_atoms
          (filter (\<lambda>c. fst (canonical_pair (strip_atoms c)) \<noteq> snd (canonical_pair (strip_atoms c)))
             contacts))
        = filter (kept L) (map strip_atoms contacts)"
    by (induction contacts) (auto simp: kept_def)
  then have b: "create_graph
        (filter (\<lambda>c. fst (canonical_pair (strip_atoms c)) \<noteq> snd (canonical_pair (strip_atoms c)))
           contacts) L
       = create_graph contacts L"
    by (rule create_graph_cong)
  have c: "\<exists>c \<in> set contacts.
          fst (canonical_pair (strip_atoms c)) < snd (canonical_pair (strip_atoms c))
          \<and> name1 e = fst (edge_names L (strip_atoms c))
          \<and> name2 e = snd (edge_names L (strip_atoms c))"
    if "e \<in> set (edges (create_graph contacts L))" for e L
  proof -
    let ?K = "filter (kept L) (map strip_atoms contacts)"
    from that obtain k where k: "k \<in> set (first_keys ?K)" "e = final_edge L ?K k"
      by (auto simp: create_graph_edges)
    from k(1) have "k \<in> contact_key_of ` set ?K" by (simp add: set_first_keys)
    from final_edge_names [OF this, of L] k(2)
    obtain sc where sc: "sc \<in> set ?K" "name1 e = fst (edge_names L sc)"
      "name2 e = snd (edge_names L sc)" by blast
    from sc(1) obtain c where "c \<in> set contacts" "sc = strip_atoms c" "kept L sc" by auto
    with sc kept_less [of L sc] show ?thesis by blast
  qed
  have d: "name1 e < name2 e" if "e \<in> set (edges (create_graph contacts None))" for e
    using c [OF that] by (auto simp: edge_names_def)
  from a b c d show ?thesis by blast
qed

theorem no_self_loop_edges_witness:
  "residue_key [''A'', ''ASP'', ''1'', ''OD1''] = residue_key [''A'', ''ASP'', ''1'', ''OD2'']
   \<and> add_contact None \<lparr>resi_edges = Map.empty, ret_edges = [], printed = []\<rparr>
        (3, ''hbss'', [''A'', ''ASP'', ''1'', ''OD1''], [''A'', ''ASP'', ''1'', ''OD2''])
     = \<lparr>resi_edges = Map.empty, ret_edges = [], printed = []\<rparr>
   \<and> edges (create_graph
       [(0, ''sb'', [''A'', ''ASP'', ''1'', ''OD1''], [''B'', ''LYS'', ''2'', ''NZ''], []),
        (3, ''hbss'', [''A'', ''ASP'', ''1'', ''OD1''], [''A'', ''ASP'', ''1'', ''OD2''], [])] None)
     = [\<lparr>name1 = ''A:ASP:1'', name2 = ''B:LYS:2'', frames = [0]\<rparr>]
   \<and> ''A:ASP:1'' < ''B:LYS:2''"
proof -
  have e: "edges (create_graph
       [(0, ''sb'', [''A'', ''ASP'', ''1'', ''OD1''], [''B'', ''LYS'', ''2'', ''NZ''], []),
        (3, ''hbss'', [''A'', ''ASP'', ''1'', ''OD1''], [''A'', ''ASP'', ''1'', ''OD2''], [])] None)
     = [\<lparr>name1 = ''A:ASP:1'', name2 = ''B:LYS:2'', frames = [0]\<rparr>]"
    by (simp add: graph_run)
  have r: "residue_key [''A'', ''ASP'', ''1'', ''OD1''] = residue_key [''A'', ''ASP'', ''1'', ''OD2'']"
    by (simp add: residue_key_def)
  note t = no_self_loop_edges [of "[''A'', ''ASP'', ''1'', ''OD1'']" "[''A'', ''ASP'', ''1'', ''OD2'']"
      None "\<lparr>resi_edges = Map.empty, ret_edges = [], printed = []\<rparr>" 3 "''hbss''"
      "[(0, ''sb'', [''A'', ''ASP'', ''1'', ''OD1''], [''B'', ''LYS'', ''2'', ''NZ''], []),
        (3, ''hbss'', [''A'', ''ASP'', ''1'', ''OD1''], [''A'', ''ASP'', ''1'', ''OD2''], [])]"]
  from t r have a: "add_contact None \<lparr>resi_edges = Map.empty, ret_edges = [], printed = []\<rparr>
        (3, ''hbss'', [''A'', ''ASP'', ''1'', ''OD1''], [''A'', ''ASP'', ''1'', ''OD2''])
     = \<lparr>resi_edges = Map.empty, ret_edges = [], printed = []\<rparr>"
    by blast
  from t have l: "''A:ASP:1'' < ''B:LYS:2''" by (simp add: e)
  from r a e l show ?thesis by blast
qed

subsection \<open>The commented-out block at two inputs\<close>

text \<open>
  The block files a record under the concatenation \<^verbatim>\<open>a1_key + a2_key\<close> and tests the
  label table with \<^verbatim>\<open>if resi_labels:\<close>. Two runs of the text as it stands: the canonical
  pairs ("1:ARG:1", "22:GLU:5") and ("1:ARG:12", "2:GLU:5") have the same concatenation,
  and the empty table takes the branch without a table.
\<close>

lemma create_graph_concatenated_key:
  "create_graph
       [(5, ''sb'', [''1'', ''ARG'', ''1'', ''NH1''], [''22'', ''GLU'', ''5'', ''OE1''], []),
        (7, ''sb'', [''1'', ''ARG'', ''12'', ''NH1''], [''2'', ''GLU'', ''5'', ''OE1''], [])] None
     = \<lparr>edges = [\<lparr>name1 = ''1:ARG:1'', name2 = ''22:GLU:5'', frames = [5, 7]\<rparr>],
        trees = None, tracks = None\<rparr>"
  by (simp add: graph_run)

lemma create_graph_empty_table:
  "create_graph
       [(0, ''sb'', [''A'', ''ARG'', ''4'', ''NH1''], [''A'', ''GLU'', ''9'', ''OE1''], [])] (Some [])
     = \<lparr>edges = [\<lparr>name1 = ''A:ARG:4'', name2 = ''A:GLU:9'', frames = [0]\<rparr>],
        trees = Some [\<lparr>treeLabel = ''DefaultTree'', treePaths = []\<rparr>],
        tracks = Some [\<lparr>trackLabel = ''DefaultTrack'', trackProperties = []\<rparr>]\<rparr>"
  by (simp add: graph_run)

section \<open>Properties of create_flare\<close>

subsection \<open>One edge for each canonical pair, in first-seen order\<close>

lemma upsert_pair_edges:
  "distinct ps \<Longrightarrow>
   upsert_edge p f (map (pair_edge F) ps) =
     (if p \<in> set ps then map (pair_edge (F(p := insert f (F p)))) ps
      else map (pair_edge F) ps @ [pair_edge (\<lambda>q. {f}) p])"
proof (induction ps)
  case Nil
  show ?case by (simp add: pair_edge_def)
next
  case (Cons q ps)
  show ?case
  proof (cases "q = p")
    case True
    with Cons.prems have "p \<notin> set ps" by simp
    then have "map (pair_edge (F(p := insert f (F p)))) ps = map (pair_edge F) ps"
      by (intro map_cong refl) (auto simp: pair_edge_def)
    with True show ?thesis by (simp add: pair_edge_def)
  next
    case False
    with Cons show ?thesis by (auto simp: pair_edge_def)
  qed
qed

lemma pairs_seen_snoc:
  "pairs_seen (cs @ [c]) =
     (if record_pair c \<in> set (pairs_seen cs) then pairs_seen cs
      else pairs_seen cs @ [record_pair c])"
  by (simp add: pairs_seen_def)

lemma set_pairs_seen: "set (pairs_seen cs) = record_pair ` set cs"
  by (simp add: pairs_seen_def)

lemma distinct_pairs_seen: "distinct (pairs_seen cs)"
  by (simp add: pairs_seen_def)

lemma frames_of_snoc:
  "frames_of (cs @ [c]) =
     (frames_of cs)(record_pair c := insert (fst c) (frames_of cs (record_pair c)))"
  by (rule ext) (simp add: frames_of_def)

lemma frames_of_unseen: "p \<notin> set (pairs_seen cs) \<Longrightarrow> frames_of cs p = {}"
  by (auto simp: frames_of_def set_pairs_seen)

lemma flare_step_edges:
  assumes "flare_edges st = map (pair_edge (frames_of (filter (accepted table) cs)))
                               (pairs_seen (filter (accepted table) cs))"
  shows "flare_edges (flare_step table st c) =
           map (pair_edge (frames_of (filter (accepted table) (cs @ [c]))))
               (pairs_seen (filter (accepted table) (cs @ [c])))"
proof (cases "accepted table c")
  case False
  then show ?thesis using assms by (auto simp: flare_step_def accepted_def)
next
  case True
  let ?K = "filter (accepted table) cs"
  let ?p = "record_pair c"
  have st: "flare_edges (flare_step table st c) = upsert_edge ?p (fst c) (flare_edges st)"
    using True by (simp add: flare_step_def accepted_def)
  show ?thesis
  proof (cases "?p \<in> set (pairs_seen ?K)")
    case True
    with \<open>accepted table c\<close> show ?thesis
      by (simp add: st assms upsert_pair_edges distinct_pairs_seen pairs_seen_snoc
          frames_of_snoc)
  next
    case False
    have "map (pair_edge ((frames_of ?K)(?p := {fst c}))) (pairs_seen ?K)
        = map (pair_edge (frames_of ?K)) (pairs_seen ?K)"
      using False by (intro map_cong refl) (auto simp: pair_edge_def)
    with False \<open>accepted table c\<close> show ?thesis
      by (simp add: st assms upsert_pair_edges distinct_pairs_seen pairs_seen_snoc
          frames_of_snoc frames_of_unseen pair_edge_def)
  qed
qed

lemma aggregate_edges:
  "flare_edges (aggregate table cs) =
     map (pair_edge (frames_of (filter (accepted table) cs)))
         (pairs_seen (filter (accepted table) cs))"
  unfolding aggregate_def
proof (induction cs rule: rev_induct)
  case Nil
  show ?case by (simp add: pairs_seen_def)
next
  case (snoc c cs)
  from flare_step_edges [OF snoc.IH, of c] show ?case by simp
qed


lemma frames_of_accepted:
  "frames_of (filter (accepted table) cs) p =
     {fst c |c. c \<in> set cs \<and> accepted table c \<and> record_pair c = p}"
proof -
  have "frames_of (filter (accepted table) cs) p =
      fst ` {c \<in> set cs. accepted table c \<and> record_pair c = p}"
    by (auto simp: frames_of_def)
  also have "\<dots> = {fst c |c. c \<in> set cs \<and> accepted table c \<and> record_pair c = p}" by blast
  finally show ?thesis .
qed

lemma finite_frames_of: "finite (frames_of cs p)"
  by (simp add: frames_of_def)

lemma edge_pair_pair_edge: "edge_pair (pair_edge F p) = p"
  by (simp add: edge_pair_def pair_edge_def)

lemma aggregate_pairs:
  "map edge_pair (flare_edges (aggregate table cs)) = pairs_seen (filter (accepted table) cs)"
  by (simp add: aggregate_edges comp_def edge_pair_pair_edge)

lemma aggregate_edge_cases:
  assumes "e \<in> set (flare_edges (aggregate table cs))"
  shows "edge_pair e \<in> record_pair ` {c \<in> set cs. accepted table c}"
    and "frame_set e = {fst c |c. c \<in> set cs \<and> accepted table c \<and> record_pair c = edge_pair e}"
    and "finite (frame_set e)"
proof -
  let ?K = "filter (accepted table) cs"
  from assms obtain p where p: "p \<in> set (pairs_seen ?K)" "e = pair_edge (frames_of ?K) p"
    by (auto simp: aggregate_edges)
  from p(2) have ep: "edge_pair e = p" by (simp add: edge_pair_pair_edge)
  from p(1) show "edge_pair e \<in> record_pair ` {c \<in> set cs. accepted table c}"
    by (simp add: ep set_pairs_seen)
  from p(2) have fs: "frame_set e = frames_of ?K p" by (simp add: pair_edge_def)
  show "frame_set e = {fst c |c. c \<in> set cs \<and> accepted table c \<and> record_pair c = edge_pair e}"
    by (simp only: fs ep frames_of_accepted)
  show "finite (frame_set e)" by (simp add: fs finite_frames_of)
qed

lemma accepted_has_edge:
  assumes "c \<in> set cs" "accepted table c"
  shows "\<exists>e \<in> set (flare_edges (aggregate table cs)). edge_pair e = record_pair c"
proof -
  from assms have "record_pair c \<in> set (pairs_seen (filter (accepted table) cs))"
    by (simp add: set_pairs_seen)
  then have "record_pair c \<in> set (map edge_pair (flare_edges (aggregate table cs)))"
    by (simp only: aggregate_pairs)
  then show ?thesis by auto
qed

lemma upsert_edge_other:
  "e \<in> set es \<Longrightarrow> edge_pair e \<noteq> p \<Longrightarrow> e \<in> set (upsert_edge p f es)"
  by (induction es) (auto simp: edge_pair_def)

lemma record_pair_less: "\<not> self_contact c \<Longrightarrow> fst (record_pair c) < snd (record_pair c)"
  by (cases c) (auto simp: record_pair_def self_contact_def Let_def)

lemma record_pair_min_max:
  "record_pair (f, t, a, b, ws) = (min (residue_key a) (residue_key b), max (residue_key a) (residue_key b))"
  by (auto simp: record_pair_def Let_def min_def max_def)

subsection \<open>Which records share an edge\<close>

lemma edge_of_accepted:
  assumes "c \<in> set cs" "accepted table c"
  shows "\<exists>e \<in> set (flare_edges (aggregate table cs)).
           edge_of (flare_edges (aggregate table cs)) c = Some e \<and> edge_pair e = record_pair c"
proof -
  from accepted_has_edge [OF assms] obtain e0
    where "e0 \<in> set (flare_edges (aggregate table cs))" "edge_pair e0 = record_pair c" by blast
  then have "find (\<lambda>e. edge_pair e = record_pair c) (flare_edges (aggregate table cs)) \<noteq> None"
    by (auto simp: find_None_iff)
  then obtain e where e: "find (\<lambda>e. edge_pair e = record_pair c) (flare_edges (aggregate table cs)) = Some e"
    by blast
  then have "e \<in> set (flare_edges (aggregate table cs)) \<and> edge_pair e = record_pair c"
    by (auto simp: find_Some_iff)
  with e show ?thesis by (simp add: edge_of_def)
qed

lemma create_flare_swapped_pair:
  assumes "residue_key x = X" "residue_key y = Y" "X \<noteq> Y"
  shows "graph_edges (create_flare [(5, ''sb'', x, y, []), (7, ''sb'', y, x, [])] None)
          = [\<lparr>name1 = min X Y, name2 = max X Y, frames = [5, 7]\<rparr>]"
proof -
  let ?c1 = "(5, ''sb'', x, y, []) :: contact"
  let ?c2 = "(7, ''sb'', y, x, []) :: contact"
  have p: "record_pair ?c1 = (min X Y, max X Y)" "record_pair ?c2 = (min X Y, max X Y)"
    using assms by (auto simp: record_pair_min_max min_def max_def)
  have a: "accepted None ?c1" "accepted None ?c2"
    using assms by (simp_all add: accepted_def self_contact_def label_miss_def)
  have ps: "pairs_seen [?c1, ?c2] = [(min X Y, max X Y)]"
    by (simp add: pairs_seen_def p)
  have fs: "frames_of [?c1, ?c2] (min X Y, max X Y) = {5, 7}"
    by (auto simp: frames_of_def p)
  have "sorted_list_of_set {5, 7 :: int} = [5, 7]"
    by (simp add: sorted_list_of_set_sort_remdups [of "[5, 7]", simplified])
  then show ?thesis
    by (simp add: create_flare_def aggregate_edges a ps fs pair_edge_def render_edge_def
        display_label_def)
qed

text \<open>
  C1. Among the edges of the aggregation no two have the same pair of residue keys, and
  the frame set of every edge holds exactly the frames of the accepted records whose
  canonical pair is the pair of the edge. Two accepted records of the input have the
  same edge if and only if their canonical pairs are equal, and a record never changes
  an edge of another pair. For atoms x and y of two different residues X and Y, the
  records (5, "sb", x, y) and (7, "sb", y, x) give exactly one edge, between X and Y
  (the smaller key first), with the frames [5, 7].
\<close>

theorem same_edge_iff_same_pair:
  "distinct (map edge_pair (flare_edges (aggregate table contacts)))
   \<and> (\<forall>e \<in> set (flare_edges (aggregate table contacts)).
        frame_set e =
          {fst c |c. c \<in> set contacts \<and> accepted table c \<and> record_pair c = edge_pair e})
   \<and> (\<forall>c \<in> set contacts. \<forall>c' \<in> set contacts.
        accepted table c \<and> accepted table c' \<longrightarrow>
          edge_of (flare_edges (aggregate table contacts)) c \<noteq> None
        \<and> (edge_of (flare_edges (aggregate table contacts)) c
              = edge_of (flare_edges (aggregate table contacts)) c')
            = (record_pair c = record_pair c'))
   \<and> (\<forall>e \<in> set (flare_edges st).
        edge_pair e \<noteq> record_pair r \<longrightarrow> e \<in> set (flare_edges (flare_step table st r)))
   \<and> (residue_key x = X \<and> residue_key y = Y \<and> X \<noteq> Y \<longrightarrow>
        graph_edges (create_flare [(5, ''sb'', x, y, []), (7, ''sb'', y, x, [])] None)
          = [\<lparr>name1 = min X Y, name2 = max X Y, frames = [5, 7]\<rparr>])"
proof -
  let ?es = "flare_edges (aggregate table contacts)"
  have d: "distinct (map edge_pair ?es)"
    by (simp only: aggregate_pairs distinct_pairs_seen)
  have f: "\<forall>e \<in> set ?es. frame_set e =
          {fst c |c. c \<in> set contacts \<and> accepted table c \<and> record_pair c = edge_pair e}"
    using aggregate_edge_cases(2) by blast
  have i: "edge_of ?es c \<noteq> None
        \<and> (edge_of ?es c = edge_of ?es c') = (record_pair c = record_pair c')"
    if "c \<in> set contacts" "c' \<in> set contacts" "accepted table c" "accepted table c'" for c c'
  proof -
    from edge_of_accepted [OF that(1,3)] obtain e
      where e: "edge_of ?es c = Some e" "edge_pair e = record_pair c" by blast
    from edge_of_accepted [OF that(2,4)] obtain e'
      where e': "edge_of ?es c' = Some e'" "edge_pair e' = record_pair c'" by blast
    have "(edge_of ?es c = edge_of ?es c') = (record_pair c = record_pair c')"
    proof
      assume "edge_of ?es c = edge_of ?es c'"
      with e e' show "record_pair c = record_pair c'" by simp
    next
      assume "record_pair c = record_pair c'"
      then show "edge_of ?es c = edge_of ?es c'" by (simp add: edge_of_def)
    qed
    with e show ?thesis by simp
  qed
  have s: "\<forall>e \<in> set (flare_edges st).
        edge_pair e \<noteq> record_pair r \<longrightarrow> e \<in> set (flare_edges (flare_step table st r))"
    by (auto simp: flare_step_def upsert_edge_other)
  from d f i s create_flare_swapped_pair [of x X y Y] show ?thesis by blast
qed


theorem same_edge_iff_same_pair_witness:
  "record_pair (5, ''sb'', [''1'', ''ARG'', ''1'', ''NH1''], [''22'', ''GLU'', ''5'', ''OE1''], [])
     = record_pair (9, ''sb'', [''22'', ''GLU'', ''5'', ''OE2''], [''1'', ''ARG'', ''1'', ''NH2''], [])
   \<and> record_pair (5, ''sb'', [''1'', ''ARG'', ''1'', ''NH1''], [''22'', ''GLU'', ''5'', ''OE1''], [])
     \<noteq> record_pair (7, ''sb'', [''1'', ''ARG'', ''12'', ''NH1''], [''2'', ''GLU'', ''5'', ''OE1''], [])
   \<and> edge_of (flare_edges (aggregate None
         [(5, ''sb'', [''1'', ''ARG'', ''1'', ''NH1''], [''22'', ''GLU'', ''5'', ''OE1''], []),
          (7, ''sb'', [''1'', ''ARG'', ''12'', ''NH1''], [''2'', ''GLU'', ''5'', ''OE1''], []),
          (9, ''sb'', [''22'', ''GLU'', ''5'', ''OE2''], [''1'', ''ARG'', ''1'', ''NH2''], [])]))
         (5, ''sb'', [''1'', ''ARG'', ''1'', ''NH1''], [''22'', ''GLU'', ''5'', ''OE1''], [])
     = edge_of (flare_edges (aggregate None
         [(5, ''sb'', [''1'', ''ARG'', ''1'', ''NH1''], [''22'', ''GLU'', ''5'', ''OE1''], []),
          (7, ''sb'', [''1'', ''ARG'', ''12'', ''NH1''], [''2'', ''GLU'', ''5'', ''OE1''], []),
          (9, ''sb'', [''22'', ''GLU'', ''5'', ''OE2''], [''1'', ''ARG'', ''1'', ''NH2''], [])]))
         (9, ''sb'', [''22'', ''GLU'', ''5'', ''OE2''], [''1'', ''ARG'', ''1'', ''NH2''], [])
   \<and> edge_of (flare_edges (aggregate None
         [(5, ''sb'', [''1'', ''ARG'', ''1'', ''NH1''], [''22'', ''GLU'', ''5'', ''OE1''], []),
          (7, ''sb'', [''1'', ''ARG'', ''12'', ''NH1''], [''2'', ''GLU'', ''5'', ''OE1''], []),
          (9, ''sb'', [''22'', ''GLU'', ''5'', ''OE2''], [''1'', ''ARG'', ''1'', ''NH2''], [])]))
         (5, ''sb'', [''1'', ''ARG'', ''1'', ''NH1''], [''22'', ''GLU'', ''5'', ''OE1''], [])
     \<noteq> edge_of (flare_edges (aggregate None
         [(5, ''sb'', [''1'', ''ARG'', ''1'', ''NH1''], [''22'', ''GLU'', ''5'', ''OE1''], []),
          (7, ''sb'', [''1'', ''ARG'', ''12'', ''NH1''], [''2'', ''GLU'', ''5'', ''OE1''], []),
          (9, ''sb'', [''22'', ''GLU'', ''5'', ''OE2''], [''1'', ''ARG'', ''1'', ''NH2''], [])]))
         (7, ''sb'', [''1'', ''ARG'', ''12'', ''NH1''], [''2'', ''GLU'', ''5'', ''OE1''], [])
   \<and> graph_edges (create_flare
         [(5, ''sb'', [''1'', ''ARG'', ''1'', ''NH1''], [''22'', ''GLU'', ''5'', ''OE1''], []),
          (7, ''sb'', [''1'', ''ARG'', ''12'', ''NH1''], [''2'', ''GLU'', ''5'', ''OE1''], []),
          (9, ''sb'', [''22'', ''GLU'', ''5'', ''OE2''], [''1'', ''ARG'', ''1'', ''NH2''], [])] None)
     = [\<lparr>name1 = ''1:ARG:1'', name2 = ''22:GLU:5'', frames = [5, 9]\<rparr>,
        \<lparr>name1 = ''1:ARG:12'', name2 = ''2:GLU:5'', frames = [7]\<rparr>]
   \<and> residue_key [''A'', ''ARG'', ''4'', ''NH1''] = ''A:ARG:4''
   \<and> residue_key [''B'', ''GLU'', ''9'', ''OE1''] = ''B:GLU:9''
   \<and> ''A:ARG:4'' \<noteq> ''B:GLU:9''
   \<and> graph_edges (create_flare
         [(5, ''sb'', [''B'', ''GLU'', ''9'', ''OE1''], [''A'', ''ARG'', ''4'', ''NH1''], []),
          (7, ''sb'', [''A'', ''ARG'', ''4'', ''NH1''], [''B'', ''GLU'', ''9'', ''OE1''], [])] None)
     = [\<lparr>name1 = ''A:ARG:4'', name2 = ''B:GLU:9'', frames = [5, 7]\<rparr>]"
proof -
  let ?c1 = "(5, ''sb'', [''1'', ''ARG'', ''1'', ''NH1''], [''22'', ''GLU'', ''5'', ''OE1''], []) :: contact"
  let ?c2 = "(7, ''sb'', [''1'', ''ARG'', ''12'', ''NH1''], [''2'', ''GLU'', ''5'', ''OE1''], []) :: contact"
  let ?c3 = "(9, ''sb'', [''22'', ''GLU'', ''5'', ''OE2''], [''1'', ''ARG'', ''1'', ''NH2''], []) :: contact"
  note t = same_edge_iff_same_pair [of None "[?c1, ?c2, ?c3]" st r
      "[''B'', ''GLU'', ''9'', ''OE1'']" "''B:GLU:9''" "[''A'', ''ARG'', ''4'', ''NH1'']" "''A:ARG:4''"]
  have p: "record_pair ?c1 = record_pair ?c3" "record_pair ?c1 \<noteq> record_pair ?c2"
    by (simp_all add: record_pair_def residue_key_def)
  have a: "accepted None ?c1" "accepted None ?c2" "accepted None ?c3"
    by (simp_all add: accepted_def self_contact_def label_miss_def residue_key_def)
  have m: "?c1 \<in> set [?c1, ?c2, ?c3]" "?c2 \<in> set [?c1, ?c2, ?c3]" "?c3 \<in> set [?c1, ?c2, ?c3]"
    by simp_all
  from t m(1) m(3) a(1) a(3) p(1)
  have e13: "edge_of (flare_edges (aggregate None [?c1, ?c2, ?c3])) ?c1
      = edge_of (flare_edges (aggregate None [?c1, ?c2, ?c3])) ?c3"
    by blast
  from t m(1) m(2) a(1) a(2) p(2)
  have e12: "edge_of (flare_edges (aggregate None [?c1, ?c2, ?c3])) ?c1
      \<noteq> edge_of (flare_edges (aggregate None [?c1, ?c2, ?c3])) ?c2"
    by blast
  have g: "graph_edges (create_flare [?c1, ?c2, ?c3] None)
     = [\<lparr>name1 = ''1:ARG:1'', name2 = ''22:GLU:5'', frames = [5, 9]\<rparr>,
        \<lparr>name1 = ''1:ARG:12'', name2 = ''2:GLU:5'', frames = [7]\<rparr>]"
    by code_simp
  have r: "residue_key [''A'', ''ARG'', ''4'', ''NH1''] = ''A:ARG:4''"
    "residue_key [''B'', ''GLU'', ''9'', ''OE1''] = ''B:GLU:9''"
    "''A:ARG:4'' \<noteq> ''B:GLU:9''"
    by (simp_all add: residue_key_def)
  have mm: "min ''B:GLU:9'' ''A:ARG:4'' = ''A:ARG:4''" "max ''B:GLU:9'' ''A:ARG:4'' = ''B:GLU:9''"
    by (simp_all add: min_def max_def)
  from t r have s: "graph_edges (create_flare
         [(5, ''sb'', [''B'', ''GLU'', ''9'', ''OE1''], [''A'', ''ARG'', ''4'', ''NH1''], []),
          (7, ''sb'', [''A'', ''ARG'', ''4'', ''NH1''], [''B'', ''GLU'', ''9'', ''OE1''], [])] None)
     = [\<lparr>name1 = ''A:ARG:4'', name2 = ''B:GLU:9'', frames = [5, 7]\<rparr>]"
    unfolding mm by blast
  from p e13 e12 g r s show ?thesis by blast
qed

subsection \<open>The label table as a filter\<close>

lemma aggregate_diagnostics:
  "diagnostics (aggregate table cs) =
     filter (\<lambda>c. \<not> self_contact c \<and> label_miss table (record_pair c)) cs"
  unfolding aggregate_def
  by (induction cs rule: rev_induct) (simp_all add: flare_step_def)

lemma aggregate_filter_present:
  "flare_edges (aggregate (Some t)
       (filter (\<lambda>c. map_of t (fst (record_pair c)) \<noteq> None
                   \<and> map_of t (snd (record_pair c)) \<noteq> None) cs))
     = flare_edges (aggregate (Some t) cs)"
proof -
  have "filter (accepted (Some t))
          (filter (\<lambda>c. map_of t (fst (record_pair c)) \<noteq> None
                      \<and> map_of t (snd (record_pair c)) \<noteq> None) cs)
        = filter (accepted (Some t)) cs"
    by (induction cs) (auto simp: accepted_def label_miss_def)
  then show ?thesis by (simp add: aggregate_edges)
qed

text \<open>
  C5. With a label table \<open>t\<close>, a record of two different residues of which one key
  is not in the table is dropped, also when the other key is in the table: the step
  leaves the edges as they are and adds the record to the diagnostics, and the pass
  goes on. The edges of the graph are those of the records with both keys in the
  table, the diagnostics are the dropped records in input order, and every edge has
  both its keys in the table.
\<close>

theorem label_miss_drops_record:
  "(\<not> self_contact c
      \<and> (map_of t (fst (record_pair c)) = None \<or> map_of t (snd (record_pair c)) = None) \<longrightarrow>
        flare_step (Some t) st c = st\<lparr>diagnostics := diagnostics st @ [c]\<rparr>)
   \<and> graph_edges (create_flare contacts (Some t))
       = graph_edges (create_flare
           (filter (\<lambda>c. map_of t (fst (record_pair c)) \<noteq> None
                       \<and> map_of t (snd (record_pair c)) \<noteq> None) contacts) (Some t))
   \<and> diagnostics (aggregate (Some t) contacts)
       = filter (\<lambda>c. \<not> self_contact c
                   \<and> (map_of t (fst (record_pair c)) = None
                      \<or> map_of t (snd (record_pair c)) = None)) contacts
   \<and> (\<forall>e \<in> set (flare_edges (aggregate (Some t) contacts)).
        map_of t (residue_key_1 e) \<noteq> None \<and> map_of t (residue_key_2 e) \<noteq> None)"
proof -
  have a: "\<not> self_contact c
      \<and> (map_of t (fst (record_pair c)) = None \<or> map_of t (snd (record_pair c)) = None) \<longrightarrow>
        flare_step (Some t) st c = st\<lparr>diagnostics := diagnostics st @ [c]\<rparr>"
    by (simp add: flare_step_def label_miss_def)
  have b: "graph_edges (create_flare contacts (Some t))
       = graph_edges (create_flare
           (filter (\<lambda>c. map_of t (fst (record_pair c)) \<noteq> None
                       \<and> map_of t (snd (record_pair c)) \<noteq> None) contacts) (Some t))"
    unfolding create_flare_def by (simp only: aggregate_filter_present)
  have d: "diagnostics (aggregate (Some t) contacts)
       = filter (\<lambda>c. \<not> self_contact c
                   \<and> (map_of t (fst (record_pair c)) = None
                      \<or> map_of t (snd (record_pair c)) = None)) contacts"
    by (simp add: aggregate_diagnostics label_miss_def)
  have e: "map_of t (residue_key_1 e) \<noteq> None \<and> map_of t (residue_key_2 e) \<noteq> None"
    if "e \<in> set (flare_edges (aggregate (Some t) contacts))" for e
  proof -
    from aggregate_edge_cases(1) [OF that] obtain c0
      where c0: "accepted (Some t) c0" "edge_pair e = record_pair c0" by blast
    have r: "residue_key_1 e = fst (edge_pair e)" "residue_key_2 e = snd (edge_pair e)"
      by (simp_all add: edge_pair_def)
    from c0(1) show ?thesis unfolding r c0(2) by (simp add: accepted_def label_miss_def)
  qed
  from a b d e show ?thesis by blast
qed

theorem label_miss_drops_record_witness:
  "\<not> self_contact (0, ''sb'', [''A'', ''ARG'', ''4'', ''NH1''], [''A'', ''GLU'', ''9'', ''OE1''], [])
   \<and> map_of [(''A:ARG:4'', \<lparr>label = ''Root.Helix1.1x30'', treepath = ''Root.Helix1.1x30'',
                              color = ''red''\<rparr>)] ''A:ARG:4'' \<noteq> None
   \<and> map_of [(''A:ARG:4'', \<lparr>label = ''Root.Helix1.1x30'', treepath = ''Root.Helix1.1x30'',
                              color = ''red''\<rparr>)] ''A:GLU:9'' = None
   \<and> flare_step
        (Some [(''A:ARG:4'', \<lparr>label = ''Root.Helix1.1x30'', treepath = ''Root.Helix1.1x30'',
                                color = ''red''\<rparr>)])
        \<lparr>flare_edges = [], diagnostics = []\<rparr>
        (0, ''sb'', [''A'', ''ARG'', ''4'', ''NH1''], [''A'', ''GLU'', ''9'', ''OE1''], [])
     = \<lparr>flare_edges = [],
        diagnostics = [(0, ''sb'', [''A'', ''ARG'', ''4'', ''NH1''], [''A'', ''GLU'', ''9'', ''OE1''], [])]\<rparr>
   \<and> graph_edges (create_flare
        [(0, ''sb'', [''A'', ''ARG'', ''4'', ''NH1''], [''A'', ''GLU'', ''9'', ''OE1''], []),
         (2, ''sb'', [''A'', ''ARG'', ''4'', ''NH1''], [''A'', ''ARG'', ''4'', ''NH1''], [])]
        (Some [(''A:ARG:4'', \<lparr>label = ''Root.Helix1.1x30'', treepath = ''Root.Helix1.1x30'',
                                color = ''red''\<rparr>)])) = []
   \<and> graph_edges (create_flare
        [(0, ''sb'', [''A'', ''ARG'', ''4'', ''NH1''], [''A'', ''GLU'', ''9'', ''OE1''], [])]
        (Some [])) = []"
proof -
  let ?c = "(0, ''sb'', [''A'', ''ARG'', ''4'', ''NH1''], [''A'', ''GLU'', ''9'', ''OE1''], []) :: contact"
  let ?t = "[(''A:ARG:4'', \<lparr>label = ''Root.Helix1.1x30'', treepath = ''Root.Helix1.1x30'',
                              color = ''red''\<rparr>)]"
  have s: "\<not> self_contact ?c" by (simp add: self_contact_def residue_key_def)
  have p: "record_pair ?c = (''A:ARG:4'', ''A:GLU:9'')"
    by (simp add: record_pair_def residue_key_def)
  have m: "map_of ?t ''A:ARG:4'' \<noteq> None" "map_of ?t ''A:GLU:9'' = None" by simp_all
  from label_miss_drops_record [of ?c ?t "\<lparr>flare_edges = [], diagnostics = []\<rparr>" "[]"] s m
  have f: "flare_step (Some ?t) \<lparr>flare_edges = [], diagnostics = []\<rparr> ?c
     = \<lparr>flare_edges = [], diagnostics = [?c]\<rparr>"
    by (simp add: p)
  have g: "graph_edges (create_flare
        [?c, (2, ''sb'', [''A'', ''ARG'', ''4'', ''NH1''], [''A'', ''ARG'', ''4'', ''NH1''], [])]
        (Some ?t)) = []"
    by code_simp
  have h: "graph_edges (create_flare [?c] (Some [])) = []"
    by code_simp
  from s m f g h show ?thesis by blast
qed


subsection \<open>The rendered frames\<close>

lemma create_flare_scenario:
  assumes "residue_key a1 = R1" "residue_key a2 = R1" "residue_key c1 = R2" "R1 \<noteq> R2"
  shows "graph_edges (create_flare
           [(0, ''sb'', a1, c1, []), (0, ''sb'', a2, c1, []), (1, ''sb'', a1, c1, [])] None)
          = [\<lparr>name1 = min R1 R2, name2 = max R1 R2, frames = [0, 1]\<rparr>]"
proof -
  let ?r1 = "(0, ''sb'', a1, c1, []) :: contact"
  let ?r2 = "(0, ''sb'', a2, c1, []) :: contact"
  let ?r3 = "(1, ''sb'', a1, c1, []) :: contact"
  have p: "record_pair ?r1 = (min R1 R2, max R1 R2)" "record_pair ?r2 = (min R1 R2, max R1 R2)"
    "record_pair ?r3 = (min R1 R2, max R1 R2)"
    using assms by (simp_all add: record_pair_min_max)
  have a: "accepted None ?r1" "accepted None ?r2" "accepted None ?r3"
    using assms by (simp_all add: accepted_def self_contact_def label_miss_def)
  have ps: "pairs_seen [?r1, ?r2, ?r3] = [(min R1 R2, max R1 R2)]"
    by (simp add: pairs_seen_def p)
  have fs: "frames_of [?r1, ?r2, ?r3] (min R1 R2, max R1 R2) = {0, 1}"
    by (auto simp: frames_of_def p)
  have "sorted_list_of_set {0, 1 :: int} = [0, 1]"
    by (simp add: sorted_list_of_set_sort_remdups [of "[0, 1]", simplified])
  then show ?thesis
    by (simp add: create_flare_def aggregate_edges a ps fs pair_edge_def render_edge_def
        display_label_def)
qed

lemma render_edge_frames:
  assumes "e \<in> set (flare_edges (aggregate table contacts))"
  shows "sorted_wrt (<) (frames (render_edge table e))"
    and "distinct (frames (render_edge table e))"
    and "set (frames (render_edge table e)) =
           {fst c |c. c \<in> set contacts \<and> accepted table c
                      \<and> record_pair c = (residue_key_1 e, residue_key_2 e)}"
proof -
  show "sorted_wrt (<) (frames (render_edge table e))"
    by (simp add: render_edge_def)
  show "distinct (frames (render_edge table e))"
    by (simp add: render_edge_def)
  from aggregate_edge_cases(2,3) [OF assms]
  show "set (frames (render_edge table e)) =
           {fst c |c. c \<in> set contacts \<and> accepted table c
                      \<and> record_pair c = (residue_key_1 e, residue_key_2 e)}"
    by (simp add: render_edge_def edge_pair_def)
qed

text \<open>
  C6. The edges of the output are the edges of the aggregation, rendered in order.
  The frames of every rendered edge are strictly ascending, hence without duplicates,
  and they are exactly the frame indices of the accepted records whose canonical pair
  is the pair of residue keys of that same edge; without a label table this pair is
  (name1, name2) of the output edge. For atoms a1 and a2 of a residue R1 and an atom c1
  of another residue R2, the records (0, "sb", a1, c1), (0, "sb", a2, c1) and
  (1, "sb", a1, c1) give exactly one edge, between R1 and R2 (the smaller key first),
  with the frames [0, 1].
\<close>

theorem rendered_frames_of_own_pair:
  "graph_edges (create_flare contacts table)
     = map (render_edge table) (flare_edges (aggregate table contacts))
   \<and> distinct (map edge_pair (flare_edges (aggregate table contacts)))
   \<and> (\<forall>e \<in> set (flare_edges (aggregate table contacts)).
        name1 (render_edge table e) = display_label table (residue_key_1 e)
      \<and> name2 (render_edge table e) = display_label table (residue_key_2 e)
      \<and> sorted_wrt (<) (frames (render_edge table e))
      \<and> distinct (frames (render_edge table e))
      \<and> set (frames (render_edge table e)) =
           {fst c |c. c \<in> set contacts \<and> accepted table c
                      \<and> record_pair c = (residue_key_1 e, residue_key_2 e)})
   \<and> (\<forall>e \<in> set (graph_edges (create_flare contacts None)).
        sorted_wrt (<) (frames e) \<and> distinct (frames e)
      \<and> set (frames e) =
           {fst c |c. c \<in> set contacts \<and> accepted None c \<and> record_pair c = (name1 e, name2 e)})
   \<and> (residue_key a1 = R1 \<and> residue_key a2 = R1 \<and> residue_key c1 = R2 \<and> R1 \<noteq> R2 \<longrightarrow>
        graph_edges (create_flare
           [(0, ''sb'', a1, c1, []), (0, ''sb'', a2, c1, []), (1, ''sb'', a1, c1, [])] None)
          = [\<lparr>name1 = min R1 R2, name2 = max R1 R2, frames = [0, 1]\<rparr>])"
proof (intro conjI ballI impI)
  show "graph_edges (create_flare contacts table)
     = map (render_edge table) (flare_edges (aggregate table contacts))"
    by (simp add: create_flare_def)
next
  show "distinct (map edge_pair (flare_edges (aggregate table contacts)))"
    by (simp only: aggregate_pairs distinct_pairs_seen)
next
  fix e
  show "name1 (render_edge table e) = display_label table (residue_key_1 e)"
    by (simp add: render_edge_def)
next
  fix e
  show "name2 (render_edge table e) = display_label table (residue_key_2 e)"
    by (simp add: render_edge_def)
next
  fix e
  assume "e \<in> set (flare_edges (aggregate table contacts))"
  then show "sorted_wrt (<) (frames (render_edge table e))"
    by (rule render_edge_frames(1))
next
  fix e
  assume "e \<in> set (flare_edges (aggregate table contacts))"
  then show "distinct (frames (render_edge table e))"
    by (rule render_edge_frames(2))
next
  fix e
  assume "e \<in> set (flare_edges (aggregate table contacts))"
  then show "set (frames (render_edge table e)) =
           {fst c |c. c \<in> set contacts \<and> accepted table c
                      \<and> record_pair c = (residue_key_1 e, residue_key_2 e)}"
    by (rule render_edge_frames(3))
next
  fix e
  assume "e \<in> set (graph_edges (create_flare contacts None))"
  then obtain fe where fe: "fe \<in> set (flare_edges (aggregate None contacts))"
      "e = render_edge None fe" by (auto simp: create_flare_def)
  show "sorted_wrt (<) (frames e)" unfolding fe(2) using fe(1) by (rule render_edge_frames(1))
next
  fix e
  assume "e \<in> set (graph_edges (create_flare contacts None))"
  then obtain fe where fe: "fe \<in> set (flare_edges (aggregate None contacts))"
      "e = render_edge None fe" by (auto simp: create_flare_def)
  show "distinct (frames e)" unfolding fe(2) using fe(1) by (rule render_edge_frames(2))
next
  fix e
  assume "e \<in> set (graph_edges (create_flare contacts None))"
  then obtain fe where fe: "fe \<in> set (flare_edges (aggregate None contacts))"
      "e = render_edge None fe" by (auto simp: create_flare_def)
  have n: "name1 e = residue_key_1 fe" "name2 e = residue_key_2 fe"
    by (simp_all add: fe(2) render_edge_def display_label_def)
  show "set (frames e) =
           {fst c |c. c \<in> set contacts \<and> accepted None c \<and> record_pair c = (name1 e, name2 e)}"
    unfolding n unfolding fe(2) using fe(1) by (rule render_edge_frames(3))
next
  assume "residue_key a1 = R1 \<and> residue_key a2 = R1 \<and> residue_key c1 = R2 \<and> R1 \<noteq> R2"
  then show "graph_edges (create_flare
           [(0, ''sb'', a1, c1, []), (0, ''sb'', a2, c1, []), (1, ''sb'', a1, c1, [])] None)
          = [\<lparr>name1 = min R1 R2, name2 = max R1 R2, frames = [0, 1]\<rparr>]"
    by (simp add: create_flare_scenario)
qed

theorem rendered_frames_of_own_pair_witness:
  "residue_key [''A'', ''ASP'', ''1'', ''OD1''] = ''A:ASP:1''
   \<and> residue_key [''A'', ''ASP'', ''1'', ''OD2''] = ''A:ASP:1''
   \<and> residue_key [''B'', ''LYS'', ''2'', ''NZ''] = ''B:LYS:2''
   \<and> ''A:ASP:1'' \<noteq> ''B:LYS:2''
   \<and> graph_edges (create_flare
        [(0, ''sb'', [''A'', ''ASP'', ''1'', ''OD1''], [''B'', ''LYS'', ''2'', ''NZ''], []),
         (0, ''sb'', [''A'', ''ASP'', ''1'', ''OD2''], [''B'', ''LYS'', ''2'', ''NZ''], []),
         (1, ''sb'', [''A'', ''ASP'', ''1'', ''OD1''], [''B'', ''LYS'', ''2'', ''NZ''], [])] None)
      = [\<lparr>name1 = ''A:ASP:1'', name2 = ''B:LYS:2'', frames = [0, 1]\<rparr>]
   \<and> sorted_wrt (<) [0, 1 :: int]
   \<and> graph_edges (create_flare
        [(4, ''sb'', [''A'', ''ASP'', ''1'', ''OD1''], [''B'', ''LYS'', ''2'', ''NZ''], []),
         (2, ''hbss'', [''C'', ''SER'', ''3'', ''OG''], [''A'', ''ASP'', ''1'', ''OD2''], []),
         (3, ''sb'', [''B'', ''LYS'', ''2'', ''NZ''], [''A'', ''ASP'', ''1'', ''OD2''], []),
         (4, ''sb'', [''A'', ''ASP'', ''1'', ''OD2''], [''B'', ''LYS'', ''2'', ''NZ''], [])] None)
      = [\<lparr>name1 = ''A:ASP:1'', name2 = ''B:LYS:2'', frames = [3, 4]\<rparr>,
         \<lparr>name1 = ''A:ASP:1'', name2 = ''C:SER:3'', frames = [2]\<rparr>]"
proof -
  let ?cs = "[(0, ''sb'', [''A'', ''ASP'', ''1'', ''OD1''], [''B'', ''LYS'', ''2'', ''NZ''], []),
        (0, ''sb'', [''A'', ''ASP'', ''1'', ''OD2''], [''B'', ''LYS'', ''2'', ''NZ''], []),
        (1, ''sb'', [''A'', ''ASP'', ''1'', ''OD1''], [''B'', ''LYS'', ''2'', ''NZ''], [])] :: contact list"
  have r: "residue_key [''A'', ''ASP'', ''1'', ''OD1''] = ''A:ASP:1''"
    "residue_key [''A'', ''ASP'', ''1'', ''OD2''] = ''A:ASP:1''"
    "residue_key [''B'', ''LYS'', ''2'', ''NZ''] = ''B:LYS:2''"
    "''A:ASP:1'' \<noteq> ''B:LYS:2''"
    by (simp_all add: residue_key_def)
  have m: "min ''A:ASP:1'' ''B:LYS:2'' = ''A:ASP:1''" "max ''A:ASP:1'' ''B:LYS:2'' = ''B:LYS:2''"
    by (simp_all add: min_def max_def)
  note t = rendered_frames_of_own_pair [of ?cs None
      "[''A'', ''ASP'', ''1'', ''OD1'']" "''A:ASP:1''" "[''A'', ''ASP'', ''1'', ''OD2'']"
      "[''B'', ''LYS'', ''2'', ''NZ'']" "''B:LYS:2''"]
  from t r have e: "graph_edges (create_flare ?cs None)
      = [\<lparr>name1 = ''A:ASP:1'', name2 = ''B:LYS:2'', frames = [0, 1]\<rparr>]"
    unfolding m by blast
  from t have "\<forall>e \<in> set (graph_edges (create_flare ?cs None)). sorted_wrt (<) (frames e)"
    by blast
  then have s: "sorted_wrt (<) [0, 1 :: int]" unfolding e by simp
  have g: "graph_edges (create_flare
        [(4, ''sb'', [''A'', ''ASP'', ''1'', ''OD1''], [''B'', ''LYS'', ''2'', ''NZ''], []),
         (2, ''hbss'', [''C'', ''SER'', ''3'', ''OG''], [''A'', ''ASP'', ''1'', ''OD2''], []),
         (3, ''sb'', [''B'', ''LYS'', ''2'', ''NZ''], [''A'', ''ASP'', ''1'', ''OD2''], []),
         (4, ''sb'', [''A'', ''ASP'', ''1'', ''OD2''], [''B'', ''LYS'', ''2'', ''NZ''], [])] None)
      = [\<lparr>name1 = ''A:ASP:1'', name2 = ''B:LYS:2'', frames = [3, 4]\<rparr>,
         \<lparr>name1 = ''A:ASP:1'', name2 = ''C:SER:3'', frames = [2]\<rparr>]"
    by code_simp
  from r e s g show ?thesis by blast
qed

text \<open>
  As in the commented-out block, no edge of the aggregation joins a residue with
  itself.
\<close>

lemma create_flare_no_self_loop:
  assumes "e \<in> set (flare_edges (aggregate table contacts))"
  shows "residue_key_1 e < residue_key_2 e"
proof -
  from aggregate_edge_cases(1) [OF assms] obtain c0
    where c0: "accepted table c0" "edge_pair e = record_pair c0" by blast
  have r: "residue_key_1 e = fst (edge_pair e)" "residue_key_2 e = snd (edge_pair e)"
    by (simp_all add: edge_pair_def)
  from c0(1) record_pair_less [of c0] show ?thesis
    unfolding r c0(2) by (simp add: accepted_def)
qed

end
